theory Spec2Isabelle
  imports Main "HOL-Library.Extended_Nat"
begin

section \<open>The MTProto sender (src/gramjs/network/MTProtoSender.ts)\<close>

text \<open>
  A shallow embedding of the class \<open>MTProtoSender\<close>. The source's private names start
  with an underscore, which an Isabelle name cannot: \<open>_popStates\<close> is \<open>u_popStates\<close>
  here, \<open>_reconnect\<close> is \<open>u_reconnect\<close>, the field \<open>_sendQueue\<close> is \<open>u_sendQueue\<close>,
  and so on. Public names are kept as they are.

  Every method is a function from the sender's fields to the updated fields. A thrown
  exception is a value of \<open>js_error\<close>. Calls that leave the sender (callbacks,
  \<open>resolve\<close> and \<open>reject\<close> of a request's promise, the timer that \<open>reconnect\<close> sets)
  are appended to the field \<open>trace\<close>, oldest first, and so are the effects whose
  order the source documents: the assignment of the salt, what \<open>_popStates\<close> returns
  and every enqueueing.
  Logging is left out, and so are the fields the class only stores (\<open>_log\<close>,
  \<open>_client\<close>, \<open>_delay\<close>, \<open>_connectTimeout\<close>, \<open>_autoReconnect\<close>, \<open>_senderCallback\<close>,
  \<open>_securityChecks\<close>, \<open>_disconnected\<close> and the two loop handles). A method that
  awaits is modelled as one sequential function; the interleaving of the two loops
  and the callers at the \<open>await\<close>s is not modelled.
\<close>

subsection \<open>Values\<close>

text \<open>
  A \<open>bigInt.BigInteger\<close> is an object: \<open>===\<close> compares the objects (\<open>big_ref\<close>),
  \<open>.equals\<close> compares the numbers (\<open>big_val\<close>), and \<open>.toString()\<close> prints the number.
\<close>

record BigInteger =
  big_ref :: nat
  big_val :: int

definition strict_eq :: "BigInteger option \<Rightarrow> BigInteger \<Rightarrow> bool" where
  \<comment> \<open>\<open>a === b\<close> with \<open>b\<close> an object: \<open>undefined\<close> is never equal to it.\<close>
  "strict_eq a b = (case a of None \<Rightarrow> False | Some x \<Rightarrow> big_ref x = big_ref b)"

definition equals :: "BigInteger \<Rightarrow> BigInteger \<Rightarrow> bool" where
  "equals a b = (big_val a = big_val b)"

text \<open>
  A key of the \<open>Map\<close> \<open>_pendingState\<close>. The source stores under \<open>msgId.toString()\<close>, the
  decimal string of the number, written \<open>KStr\<close> of that number; \<open>_handleAck\<close> looks up
  with the object itself, \<open>KObj\<close> of its identity. A \<open>Map\<close> compares keys by
  SameValueZero, so a string never equals an object.
\<close>

datatype js_key = KStr int | KObj nat

definition toString :: "BigInteger \<Rightarrow> js_key" where
  "toString b = KStr (big_val b)"

type_synonym body = nat

datatype api_request =
    MsgsAckRequest "BigInteger list"
  | MsgsStateInfo BigInteger string
  | AuthLogOut
  | ApiRequest string nat

text \<open>
  Modelled from the spec: \<open>classType\<close> is a property of the generated \<open>Api\<close> classes,
  which are not part of the source file. Requests that expect a reply have
  \<open>classType == "request"\<close>; "notifications/acks are fire-and-forget and are not
  tracked". An \<open>ApiRequest\<close> carries its own \<open>classType\<close>.
\<close>

definition classType :: "api_request \<Rightarrow> string" where
  "classType r = (case r of
       MsgsAckRequest _ \<Rightarrow> ''constructor''
     | MsgsStateInfo _ _ \<Rightarrow> ''constructor''
     | AuthLogOut \<Rightarrow> ''request''
     | ApiRequest c _ \<Rightarrow> c)"

text \<open>
  A \<open>RequestState\<close>, with the fields the sender reads: the request, the ids the
  packer assigns, and its promise. \<open>promise\<close> is the identity of the completion handle
  that \<open>new RequestState(request)\<close> creates.
\<close>

record RequestState =
  request :: api_request
  msgId :: "BigInteger option"
  containerId :: "BigInteger option"
  promise :: nat

datatype tl_object =
    RPCResult BigInteger "nat option" body
  | MessageContainer "tl_message list"
  | GZIPPacked "tl_object option"
  | Pong BigInteger
  | BadServerSalt BigInteger BigInteger
  | BadMsgNotification BigInteger int
  | MsgDetailedInfo BigInteger
  | MsgNewDetailedInfo BigInteger
  | NewSessionCreated BigInteger
  | MsgsAck "BigInteger list"
  | FutureSalts
  | MsgsStateReq "BigInteger list"
  | MsgResendReq "BigInteger list"
  | MsgsAllInfo
  | OtherObject nat
and tl_message = TLMessage (tl_msgId: BigInteger) (tl_obj: tl_object)

text \<open>
  \<open>RPCResult reqMsgId error body\<close>; \<open>BadServerSalt badMsgId newServerSalt\<close>;
  \<open>BadMsgNotification badMsgId errorCode\<close>; \<open>MsgDetailedInfo answerMsgId\<close>;
  \<open>NewSessionCreated serverSalt\<close>; \<open>OtherObject subclassOfId\<close> is any object with no
  entry in \<open>_handlers\<close>. \<open>GZIPPacked\<close> carries what \<open>BinaryReader.tgReadObject\<close> reads
  from its data, \<open>None\<close> when the reader throws.
\<close>

datatype js_error =
    NotConnected
  | TypeError
  | RangeError
  | TypeNotFoundError
  | SecurityError
  | InvalidBufferError int
  | BadMessageError api_request int
  | RPCError nat api_request
  | Disconnected
  | OtherError

datatype connection_state = connected | disconnected | broken

datatype resolved = Decoded nat | Object tl_object | JsTrue

datatype event =
    UpdateConnectionState connection_state
  | UpdateObject tl_object
  | AuthKeyCallback int
  | AutoReconnectCallback
  | OnConnectionBreak int
  | Resolve RequestState resolved
  | Reject RequestState js_error
  | SaltAssigned BigInteger
  | Popped BigInteger "RequestState option list"
  | Enqueued "RequestState option list"
  | TimeOffsetUpdated BigInteger
  | ReconnectScheduled

subsection \<open>The sender's fields\<close>

record MTProtoState =
  salt :: BigInteger
  u_sequence :: int
  timeOffset :: int
  sessionId :: int

datatype connection = Connection nat

datatype connection_ref = Undefined | Null | Conn connection

text \<open>
  \<open>u_retries\<close> is a JavaScript number compared with the attempt counter; its default
  is \<open>Infinity\<close>. The callbacks are optional: a field such as \<open>u_updateCallback\<close> is
  \<open>True\<close> when the option was given (the source tests the field's truthiness before
  every call). \<open>authKey\<close> is \<open>True\<close> when \<open>authKey.getKey()\<close> is truthy.
  \<open>u_sendQueue\<close> is the content of the \<open>MessagePacker\<close>, oldest first; \<open>None\<close> is
  \<open>undefined\<close>, the element \<open>_reconnect\<close> appends to wake the send loop.
  \<open>u_pendingState\<close> is the \<open>Map\<close> in insertion order. \<open>nextObject\<close> is the identity the
  next created object gets.
\<close>

record sender =
  u_connection :: connection_ref
  u_dcId :: int
  u_retries :: enat
  u_updateCallback :: bool
  u_authKeyCallback :: bool
  u_autoReconnectCallback :: bool
  u_onConnectionBreak :: bool
  u_isMainSender :: bool
  u_userConnected :: bool
  u_reconnecting :: bool
  userDisconnected :: bool
  isConnecting :: bool
  u_authenticated :: bool
  authKey :: bool
  u_state :: MTProtoState
  u_sendQueue :: "RequestState option list"
  u_pendingState :: "(js_key \<times> RequestState) list"
  u_pendingAck :: "BigInteger list"
  u_lastAcks :: "RequestState list"
  nextObject :: nat
  trace :: "event list"

text \<open>
  What the sender calls and the source file does not define: \<open>MTProtoState\<close>'s
  \<open>updateTimeOffset\<close> and \<open>reset\<close>, \<open>MessagePacker.get\<close>, the readers of a result's
  body, the transport, the authenticator, and the JavaScript engine's conversion of
  a decimal string to a number and its longest string. They are parameters of the
  model: every theorem holds for all of them.
\<close>

datatype read_outcome = IsUploadFile | IsOtherObject | ThrowsTypeNotFound | ThrowsOther

datatype batch_item = Single RequestState | Many "RequestState list"

record collab =
  updateTimeOffset :: "MTProtoState \<Rightarrow> BigInteger \<Rightarrow> MTProtoState"
  reset :: "MTProtoState \<Rightarrow> MTProtoState"
  packer_get :: "RequestState option list \<Rightarrow> MTProtoState
      \<Rightarrow> (batch_item list) option \<times> RequestState option list \<times> MTProtoState"
  tgReadObject :: "body \<Rightarrow> read_outcome"
  readResult :: "api_request \<Rightarrow> body \<Rightarrow> js_error + nat"
  transport_connects :: "nat \<Rightarrow> bool"
  transport_disconnects :: bool
  doAuthentication :: "nat \<Rightarrow> int option"
  authKeyCallback_returns :: "nat \<Rightarrow> bool"
  toNumber :: "int \<Rightarrow> int"
  maxStringLength :: nat

subsection \<open>The queue and the pending map\<close>

definition emit :: "event \<Rightarrow> sender \<Rightarrow> sender" where
  "emit e s = s\<lparr>trace := trace s @ [e]\<rparr>"

text \<open>
  Modelled from the spec: the class \<open>MessagePacker\<close> is not part of the source file.
  \<open>append(state)\<close> "enqueues a single RequestState" and \<open>extend(states)\<close> "enqueues
  many"; the queue hands its entries out oldest first.
\<close>

definition sendQueue_append :: "RequestState option \<Rightarrow> sender \<Rightarrow> sender" where
  \<comment> \<open>\<open>this._sendQueue.append(state)\<close>\<close>
  "sendQueue_append st s = emit (Enqueued [st]) (s\<lparr>u_sendQueue := u_sendQueue s @ [st]\<rparr>)"

definition sendQueue_extend :: "RequestState option list \<Rightarrow> sender \<Rightarrow> sender" where
  \<comment> \<open>\<open>this._sendQueue.extend(states)\<close>\<close>
  "sendQueue_extend sts s = emit (Enqueued sts) (s\<lparr>u_sendQueue := u_sendQueue s @ sts\<rparr>)"

text \<open>
  Modelled from the spec: \<open>MessagePacker.rejectAll\<close> is not part of the source file.
  It "rejects all queued RequestStates with a disconnected error and empties the
  queue".
\<close>

definition sendQueue_rejectAll :: "sender \<Rightarrow> sender" where
  "sendQueue_rejectAll s =
     s\<lparr>u_sendQueue := [],
       trace := trace s @ map (\<lambda>st. Reject st Disconnected) (List.map_filter id (u_sendQueue s))\<rparr>"

definition map_get :: "(js_key \<times> RequestState) list \<Rightarrow> js_key \<Rightarrow> RequestState option" where
  "map_get m k = map_of m k"

definition map_delete :: "js_key \<Rightarrow> (js_key \<times> RequestState) list \<Rightarrow> (js_key \<times> RequestState) list" where
  "map_delete k m = filter (\<lambda>p. fst p \<noteq> k) m"

definition map_set :: "js_key \<Rightarrow> RequestState \<Rightarrow> (js_key \<times> RequestState) list \<Rightarrow> (js_key \<times> RequestState) list" where
  \<comment> \<open>\<open>Map.set\<close>: an existing key keeps its place, a new key goes last.\<close>
  "map_set k v m =
     (if k \<in> fst ` set m then map (\<lambda>p. if fst p = k then (k, v) else p) m else m @ [(k, v)])"

definition map_values :: "(js_key \<times> RequestState) list \<Rightarrow> RequestState list" where
  "map_values m = map snd m"

text \<open>
  Modelled from the spec: the class \<open>RequestState\<close> is not part of the source file.
  "Construction takes a request object"; the ids are assigned "when the request enters
  a batch", so a new state has none; \<open>promise\<close> "returns the caller-visible completion
  handle", one for each state.
\<close>

definition newRequestState :: "api_request \<Rightarrow> sender \<Rightarrow> RequestState \<times> sender" where
  \<comment> \<open>\<open>new RequestState(request)\<close>\<close>
  "newRequestState r s =
     (\<lparr>request = r, msgId = None, containerId = None, promise = nextObject s\<rparr>,
      s\<lparr>nextObject := Suc (nextObject s)\<rparr>)"

subsection \<open>\<open>_popStates\<close>\<close>

definition in_container :: "BigInteger \<Rightarrow> RequestState \<Rightarrow> bool" where
  \<comment> \<open>\<open>state.containerId && state.containerId.equals(msgId)\<close>\<close>
  "in_container m st = (case containerId st of None \<Rightarrow> False | Some c \<Rightarrow> equals c m)"

fun collect_toPop :: "RequestState list \<Rightarrow> BigInteger \<Rightarrow> BigInteger option list" where
  \<comment> \<open>the first loop: \<open>toPop.push(state.msgId)\<close> for each state whose container is \<open>msgId\<close>\<close>
  "collect_toPop [] m = []"
| "collect_toPop (st # sts) m =
     (if in_container m st then msgId st # collect_toPop sts m else collect_toPop sts m)"

fun pop_each :: "BigInteger option list \<Rightarrow> (js_key \<times> RequestState) list
    \<Rightarrow> (js_error + RequestState option list) \<times> (js_key \<times> RequestState) list" where
  \<comment> \<open>the second loop: \<open>temp.push(get(x!.toString())); delete(x!.toString())\<close>;
     \<open>x!.toString()\<close> throws when \<open>x\<close> is \<open>undefined\<close>, and what was deleted stays deleted\<close>
  "pop_each [] m = (Inr [], m)"
| "pop_each (None # xs) m = (Inl TypeError, m)"
| "pop_each (Some x # xs) m =
     (case pop_each xs (map_delete (toString x) m) of
        (Inl e, m') \<Rightarrow> (Inl e, m')
      | (Inr temp, m') \<Rightarrow> (Inr (map_get m (toString x) # temp), m'))"

fun scan_lastAcks :: "RequestState list \<Rightarrow> BigInteger \<Rightarrow> RequestState option list" where
  \<comment> \<open>the last loop: \<open>if (ack.msgId === msgId) return [ack]\<close>, else \<open>[]\<close>\<close>
  "scan_lastAcks [] m = []"
| "scan_lastAcks (ack # acks) m =
     (if strict_eq (msgId ack) m then [Some ack] else scan_lastAcks acks m)"

definition u_popStates :: "BigInteger \<Rightarrow> sender \<Rightarrow> (js_error + RequestState option list) \<times> sender" where
  "u_popStates m s =
     (case map_get (u_pendingState s) (toString m) of
        Some st \<Rightarrow>
          (Inr [Some st],
           emit (Popped m [Some st])
             (s\<lparr>u_pendingState := map_delete (toString m) (u_pendingState s)\<rparr>))
      | None \<Rightarrow>
          (let toPop = collect_toPop (map_values (u_pendingState s)) m in
           if toPop \<noteq> [] then
             (case pop_each toPop (u_pendingState s) of
                (Inl e, m') \<Rightarrow> (Inl e, s\<lparr>u_pendingState := m'\<rparr>)
              | (Inr temp, m') \<Rightarrow> (Inr temp, emit (Popped m temp) (s\<lparr>u_pendingState := m'\<rparr>)))
           else
             (let found = scan_lastAcks (u_lastAcks s) m
              in (Inr found, emit (Popped m found) s))))"

definition keyed_by_msgId :: "(js_key \<times> RequestState) list \<Rightarrow> bool" where
  \<comment> \<open>what the send loop's \<open>this._pendingState.set(state.msgId.toString(), state)\<close> gives:
     every state is stored under the string of its own id, and a \<open>Map\<close> has no key twice\<close>
  "keyed_by_msgId m =
     (distinct (map fst m) \<and>
      (\<forall>p \<in> set m. case msgId (snd p) of None \<Rightarrow> False | Some x \<Rightarrow> fst p = toString x))"

subsection \<open>The response handlers\<close>

definition pendingAck_add :: "BigInteger \<Rightarrow> sender \<Rightarrow> sender" where
  \<comment> \<open>\<open>this._pendingAck.add(x)\<close>: a \<open>Set\<close> of objects, in insertion order\<close>
  "pendingAck_add x s =
     (if big_ref x \<in> big_ref ` set (u_pendingAck s) then s
      else s\<lparr>u_pendingAck := u_pendingAck s @ [x]\<rparr>)"

definition u_handleRPCResult :: "collab \<Rightarrow> BigInteger \<Rightarrow> nat option \<Rightarrow> body \<Rightarrow> sender
    \<Rightarrow> js_error option \<times> sender" where
  "u_handleRPCResult E reqMsgId err b s =
     (case map_get (u_pendingState s) (toString reqMsgId) of
        None \<Rightarrow>
          (case tgReadObject E b of
             IsUploadFile \<Rightarrow> (None, s)
           | IsOtherObject \<Rightarrow> (Some OtherError, s)
           | ThrowsTypeNotFound \<Rightarrow> (None, s)
           | ThrowsOther \<Rightarrow> (Some OtherError, s))
      | Some st \<Rightarrow>
          (let s1 = s\<lparr>u_pendingState := map_delete (toString reqMsgId) (u_pendingState s)\<rparr> in
           case (err, msgId st) of
             (Some code, Some m) \<Rightarrow>
               (let (ack, s2) = newRequestState (MsgsAckRequest [m]) s1 in
                (None, emit (Reject st (RPCError code (request st))) (sendQueue_append (Some ack) s2)))
           | _ \<Rightarrow>
               (case readResult E (request st) b of
                  Inl e \<Rightarrow> (Some e, s1)
                | Inr v \<Rightarrow> (None, emit (Resolve st (Decoded v)) s1))))"

definition u_handleUpdate :: "tl_object \<Rightarrow> sender \<Rightarrow> js_error option \<times> sender" where
  "u_handleUpdate obj s =
     (case obj of
        OtherObject sub \<Rightarrow>
          (if sub \<noteq> 0x8af52aac then (None, s)
           else if u_updateCallback s then (None, emit (UpdateObject obj) s)
           else (None, s))
      | _ \<Rightarrow> (None, s))"

definition u_handlePong :: "BigInteger \<Rightarrow> sender \<Rightarrow> js_error option \<times> sender" where
  "u_handlePong pongMsgId s =
     (let state = map_get (u_pendingState s) (toString pongMsgId);
          s1 = s\<lparr>u_pendingState := map_delete (toString pongMsgId) (u_pendingState s)\<rparr>
      in case state of
           Some st \<Rightarrow> (None, emit (Resolve st (Object (Pong pongMsgId))) s1)
         | None \<Rightarrow> (None, s1))"

definition set_salt :: "BigInteger \<Rightarrow> sender \<Rightarrow> sender" where
  \<comment> \<open>\<open>this._state.salt = x\<close>\<close>
  "set_salt x s = emit (SaltAssigned x) (s\<lparr>u_state := (u_state s)\<lparr>salt := x\<rparr>\<rparr>)"

definition u_handleBadServerSalt :: "BigInteger \<Rightarrow> BigInteger \<Rightarrow> sender \<Rightarrow> js_error option \<times> sender" where
  "u_handleBadServerSalt badMsgId newServerSalt s =
     (let s1 = set_salt newServerSalt s in
      case u_popStates badMsgId s1 of
        (Inl e, s2) \<Rightarrow> (Some e, s2)
      | (Inr states, s2) \<Rightarrow> (None, sendQueue_extend states s2))"

fun reject_each :: "int \<Rightarrow> RequestState option list \<Rightarrow> sender \<Rightarrow> js_error option \<times> sender" where
  \<comment> \<open>\<open>for (const state of states) state.reject(new BadMessageError(state.request, code))\<close>;
     \<open>state.reject\<close> throws when \<open>state\<close> is \<open>undefined\<close>\<close>
  "reject_each code [] s = (None, s)"
| "reject_each code (None # sts) s = (Some TypeError, s)"
| "reject_each code (Some st # sts) s =
     reject_each code sts (emit (Reject st (BadMessageError (request st) code)) s)"

definition u_handleBadNotification :: "collab \<Rightarrow> BigInteger \<Rightarrow> BigInteger \<Rightarrow> int \<Rightarrow> sender
    \<Rightarrow> js_error option \<times> sender" where
  "u_handleBadNotification E messageMsgId badMsgId errorCode s =
     (case u_popStates badMsgId s of
        (Inl e, s1) \<Rightarrow> (Some e, s1)
      | (Inr states, s1) \<Rightarrow>
          (if errorCode \<in> {16, 17} then
             (None, sendQueue_extend states
                (emit (TimeOffsetUpdated messageMsgId)
                   (s1\<lparr>u_state := updateTimeOffset E (u_state s1) messageMsgId\<rparr>)))
           else if errorCode = 32 then
             (None, sendQueue_extend states
                (s1\<lparr>u_state := (u_state s1)\<lparr>u_sequence := u_sequence (u_state s1) + 64\<rparr>\<rparr>))
           else if errorCode = 33 then
             (None, sendQueue_extend states
                (s1\<lparr>u_state := (u_state s1)\<lparr>u_sequence := u_sequence (u_state s1) - 16\<rparr>\<rparr>))
           else reject_each errorCode states s1))"

definition u_handleDetailedInfo :: "BigInteger \<Rightarrow> sender \<Rightarrow> js_error option \<times> sender" where
  "u_handleDetailedInfo answerMsgId s = (None, pendingAck_add answerMsgId s)"

definition u_handleNewDetailedInfo :: "BigInteger \<Rightarrow> sender \<Rightarrow> js_error option \<times> sender" where
  "u_handleNewDetailedInfo answerMsgId s = (None, pendingAck_add answerMsgId s)"

definition u_handleNewSessionCreated :: "BigInteger \<Rightarrow> sender \<Rightarrow> js_error option \<times> sender" where
  "u_handleNewSessionCreated serverSalt s = (None, set_salt serverSalt s)"

fun u_handleAck :: "BigInteger list \<Rightarrow> sender \<Rightarrow> js_error option \<times> sender" where
  \<comment> \<open>the lookup is \<open>this._pendingState.get(msgId)\<close>, with the object as the key\<close>
  "u_handleAck [] s = (None, s)"
| "u_handleAck (m # ms) s =
     (case map_get (u_pendingState s) (KObj (big_ref m)) of
        Some st \<Rightarrow>
          (if request st = AuthLogOut then
             u_handleAck ms
               (emit (Resolve st JsTrue)
                  (s\<lparr>u_pendingState := map_delete (KObj (big_ref m)) (u_pendingState s)\<rparr>))
           else u_handleAck ms s)
      | None \<Rightarrow> u_handleAck ms s)"

definition u_handleFutureSalts :: "BigInteger \<Rightarrow> sender \<Rightarrow> js_error option \<times> sender" where
  "u_handleFutureSalts messageMsgId s =
     (case map_get (u_pendingState s) (toString messageMsgId) of
        Some st \<Rightarrow>
          (None, emit (Resolve st (Object FutureSalts))
             (s\<lparr>u_pendingState := map_delete (toString messageMsgId) (u_pendingState s)\<rparr>))
      | None \<Rightarrow> (None, s))"

text \<open>
  \<open>String.fromCharCode(1).repeat(message.obj.msgIds)\<close>: the argument of \<open>repeat\<close> is the
  array itself. JavaScript converts it to a number through its string, the elements'
  strings joined by commas: the empty array gives \<open>""\<close> and so 0, an array of one
  element gives that element's number (\<open>toNumber\<close> of the engine), and a longer array
  gives a string with a comma, which is \<open>NaN\<close> and counts as 0. \<open>repeat\<close> throws a
  \<open>RangeError\<close> on a negative count and on a result longer than the engine allows.
\<close>

definition repeat_count :: "collab \<Rightarrow> BigInteger list \<Rightarrow> js_error + nat" where
  "repeat_count E ids =
     (case ids of
        [] \<Rightarrow> Inr 0
      | [x] \<Rightarrow>
          (let n = toNumber E (big_val x) in
           if n < 0 \<or> int (maxStringLength E) < n then Inl RangeError else Inr (nat n))
      | _ \<Rightarrow> Inr 0)"

definition u_handleStateForgotten :: "collab \<Rightarrow> BigInteger \<Rightarrow> BigInteger list \<Rightarrow> sender
    \<Rightarrow> js_error option \<times> sender" where
  "u_handleStateForgotten E messageMsgId msgIds s =
     (case repeat_count E msgIds of
        Inl e \<Rightarrow> (Some e, s)
      | Inr n \<Rightarrow>
          (let (st, s1) = newRequestState (MsgsStateInfo messageMsgId (replicate n (CHR 0x01))) s
           in (None, sendQueue_append (Some st) s1)))"

definition u_handleMsgAll :: "sender \<Rightarrow> js_error option \<times> sender" where
  "u_handleMsgAll s = (None, s)"

fun u_processMessage :: "collab \<Rightarrow> tl_message \<Rightarrow> sender \<Rightarrow> js_error option \<times> sender"
  and u_handleContainer :: "collab \<Rightarrow> tl_message list \<Rightarrow> sender \<Rightarrow> js_error option \<times> sender"
where
  "u_processMessage E (TLMessage mid (RPCResult reqMsgId err b)) s =
     u_handleRPCResult E reqMsgId err b (pendingAck_add mid s)"
| "u_processMessage E (TLMessage mid (MessageContainer messages)) s =
     u_handleContainer E messages (pendingAck_add mid s)"
| "u_processMessage E (TLMessage mid (GZIPPacked None)) s =
     (Some OtherError, pendingAck_add mid s)"
| "u_processMessage E (TLMessage mid (GZIPPacked (Some obj))) s =
     u_processMessage E (TLMessage mid obj) (pendingAck_add mid s)"
| "u_processMessage E (TLMessage mid (Pong pongMsgId)) s =
     u_handlePong pongMsgId (pendingAck_add mid s)"
| "u_processMessage E (TLMessage mid (BadServerSalt badMsgId newServerSalt)) s =
     u_handleBadServerSalt badMsgId newServerSalt (pendingAck_add mid s)"
| "u_processMessage E (TLMessage mid (BadMsgNotification badMsgId errorCode)) s =
     u_handleBadNotification E mid badMsgId errorCode (pendingAck_add mid s)"
| "u_processMessage E (TLMessage mid (MsgDetailedInfo answerMsgId)) s =
     u_handleDetailedInfo answerMsgId (pendingAck_add mid s)"
| "u_processMessage E (TLMessage mid (MsgNewDetailedInfo answerMsgId)) s =
     u_handleNewDetailedInfo answerMsgId (pendingAck_add mid s)"
| "u_processMessage E (TLMessage mid (NewSessionCreated serverSalt)) s =
     u_handleNewSessionCreated serverSalt (pendingAck_add mid s)"
| "u_processMessage E (TLMessage mid (MsgsAck msgIds)) s =
     u_handleAck msgIds (pendingAck_add mid s)"
| "u_processMessage E (TLMessage mid FutureSalts) s =
     u_handleFutureSalts mid (pendingAck_add mid s)"
| "u_processMessage E (TLMessage mid (MsgsStateReq msgIds)) s =
     u_handleStateForgotten E mid msgIds (pendingAck_add mid s)"
| "u_processMessage E (TLMessage mid (MsgResendReq msgIds)) s =
     u_handleStateForgotten E mid msgIds (pendingAck_add mid s)"
| "u_processMessage E (TLMessage mid MsgsAllInfo) s =
     u_handleMsgAll (pendingAck_add mid s)"
| "u_processMessage E (TLMessage mid (OtherObject sub)) s =
     u_handleUpdate (OtherObject sub) (pendingAck_add mid s)"
| "u_handleContainer E [] s = (None, s)"
| "u_handleContainer E (m # ms) s =
     (case u_processMessage E m s of
        (None, s1) \<Rightarrow> u_handleContainer E ms s1
      | (Some e, s1) \<Rightarrow> (Some e, s1))"

subsection \<open>Construction and the public methods\<close>

record options =
  opt_retries :: enat
  opt_updateCallback :: bool
  opt_authKeyCallback :: bool
  opt_autoReconnectCallback :: bool
  opt_onConnectionBreak :: bool
  opt_isMainSender :: bool
  opt_dcId :: int

definition DEFAULT_OPTIONS :: options where
  "DEFAULT_OPTIONS =
     \<lparr>opt_retries = \<infinity>, opt_updateCallback = False, opt_authKeyCallback = False,
      opt_autoReconnectCallback = False, opt_onConnectionBreak = False,
      opt_isMainSender = False, opt_dcId = 0\<rparr>"

definition MTProtoSender :: "bool \<Rightarrow> MTProtoState \<Rightarrow> options \<Rightarrow> sender" where
  \<comment> \<open>the constructor; \<open>key\<close> says whether an auth key with a key was passed, \<open>st\<close> is the
     \<open>new MTProtoState(...)\<close>\<close>
  "MTProtoSender key st opts =
     \<lparr>u_connection = Undefined, u_dcId = opt_dcId opts, u_retries = opt_retries opts,
      u_updateCallback = opt_updateCallback opts,
      u_authKeyCallback = opt_authKeyCallback opts,
      u_autoReconnectCallback = opt_autoReconnectCallback opts,
      u_onConnectionBreak = opt_onConnectionBreak opts,
      u_isMainSender = opt_isMainSender opts,
      u_userConnected = False, u_reconnecting = False, userDisconnected = False,
      isConnecting = False, u_authenticated = False, authKey = key, u_state = st,
      u_sendQueue = [], u_pendingState = [], u_pendingAck = [], u_lastAcks = [],
      nextObject = 0, trace = []\<rparr>"

definition set_dcId :: "int \<Rightarrow> sender \<Rightarrow> sender" where
  "set_dcId d s = s\<lparr>u_dcId := d\<rparr>"

definition isConnected :: "sender \<Rightarrow> bool" where
  "isConnected s = u_userConnected s"

definition send :: "api_request \<Rightarrow> sender \<Rightarrow> (js_error + nat) \<times> sender" where
  \<comment> \<open>returns \<open>state.promise\<close>, or throws\<close>
  "send r s =
     (if \<not> u_userConnected s then (Inl NotConnected, s)
      else (let (st, s1) = newRequestState r s
            in (Inr (promise st), sendQueue_append (Some st) s1)))"

definition updateCallback :: "connection_state \<Rightarrow> sender \<Rightarrow> sender" where
  \<comment> \<open>\<open>if (this._updateCallback) this._updateCallback(client, new UpdateConnectionState(x))\<close>\<close>
  "updateCallback x s = (if u_updateCallback s then emit (UpdateConnectionState x) s else s)"

definition u_disconnect :: "collab \<Rightarrow> sender \<Rightarrow> js_error option \<times> sender" where
  \<comment> \<open>\<open>this._connection\<close> starts as \<open>undefined\<close>, which is not \<open>=== null\<close>:
     \<open>this._connection!.toString()\<close> then throws\<close>
  "u_disconnect E s =
     (let s1 = sendQueue_rejectAll s in
      case u_connection s1 of
        Null \<Rightarrow> (None, s1)
      | Undefined \<Rightarrow> (Some TypeError, updateCallback disconnected s1)
      | Conn c \<Rightarrow>
          (let s2 = (updateCallback disconnected s1)\<lparr>u_userConnected := False\<rparr>
           in if transport_disconnects E then (None, s2) else (Some OtherError, s2)))"

definition disconnect :: "collab \<Rightarrow> sender \<Rightarrow> js_error option \<times> sender" where
  "disconnect E s = u_disconnect E (s\<lparr>userDisconnected := True\<rparr>)"

definition reconnect :: "sender \<Rightarrow> sender" where
  \<comment> \<open>\<open>sleep(1000).then(() => this._reconnect())\<close> is the event \<open>ReconnectScheduled\<close>\<close>
  "reconnect s =
     (if u_userConnected s \<and> \<not> u_reconnecting s
      then emit ReconnectScheduled (s\<lparr>u_reconnecting := True\<rparr>)
      else s)"

subsection \<open>The send loop\<close>

datatype loop_ctl = Continue | Exit | Thrown js_error

definition lastAcks_push :: "RequestState \<Rightarrow> sender \<Rightarrow> sender" where
  \<comment> \<open>\<open>this._lastAcks.push(ack)\<close>\<close>
  "lastAcks_push ack s = s\<lparr>u_lastAcks := u_lastAcks s @ [ack]\<rparr>"

definition lastAcks_shift :: "sender \<Rightarrow> sender" where
  \<comment> \<open>\<open>if (this._lastAcks.length >= 10) this._lastAcks.shift()\<close>\<close>
  "lastAcks_shift s =
     (if length (u_lastAcks s) \<ge> 10 then s\<lparr>u_lastAcks := tl (u_lastAcks s)\<rparr> else s)"

definition sendLoop_acks :: "sender \<Rightarrow> sender" where
  \<comment> \<open>the block \<open>if (this._pendingAck.size) { ... }\<close> at the top of an iteration\<close>
  "sendLoop_acks s =
     (if u_pendingAck s \<noteq> [] then
        (let (ack, s1) = newRequestState (MsgsAckRequest (u_pendingAck s)) s;
             s2 = sendQueue_append (Some ack) s1;
             s3 = lastAcks_push ack s2;
             s4 = lastAcks_shift s3
         in s4\<lparr>u_pendingAck := []\<rparr>)
      else s)"

fun track_each :: "RequestState list \<Rightarrow> sender \<Rightarrow> js_error option \<times> sender" where
  \<comment> \<open>\<open>if (s.request.classType === "request") this._pendingState.set(s.msgId.toString(), s)\<close>;
     \<open>toString\<close> of an undefined id throws\<close>
  "track_each [] s = (None, s)"
| "track_each (st # sts) s =
     (if classType (request st) = ''request'' then
        (case msgId st of
           None \<Rightarrow> (Some TypeError, s)
         | Some m \<Rightarrow>
             track_each sts (s\<lparr>u_pendingState := map_set (toString m) st (u_pendingState s)\<rparr>))
      else track_each sts s)"

fun track_batch :: "batch_item list \<Rightarrow> sender \<Rightarrow> js_error option \<times> sender" where
  \<comment> \<open>\<open>for (const state of batch)\<close>: an element is a state or an array of states\<close>
  "track_batch [] s = (None, s)"
| "track_batch (Single st # items) s =
     (case track_each [st] s of
        (None, s1) \<Rightarrow> track_batch items s1
      | (Some e, s1) \<Rightarrow> (Some e, s1))"
| "track_batch (Many sts # items) s =
     (case track_each sts s of
        (None, s1) \<Rightarrow> track_batch items s1
      | (Some e, s1) \<Rightarrow> (Some e, s1))"

definition sendLoop_resume :: "collab \<Rightarrow> bool \<Rightarrow> sender \<Rightarrow> loop_ctl \<times> sender" where
  \<comment> \<open>an iteration from \<open>await this._sendQueue.get()\<close> on; \<open>sent\<close> is false when
     \<open>this._connection.send(data)\<close> throws\<close>
  "sendLoop_resume E sent s =
     (case packer_get E (u_sendQueue s) (u_state s) of
        (res, q, st) \<Rightarrow>
          (let s1 = s\<lparr>u_sendQueue := q, u_state := st\<rparr> in
           if u_reconnecting s1 then (Exit, s1)
           else case res of
             None \<Rightarrow> (Continue, s1)
           | Some batch \<Rightarrow>
               (if \<not> sent then (Exit, s1)
                else case track_batch batch s1 of
                  (None, s2) \<Rightarrow> (Continue, s2)
                | (Some e, s2) \<Rightarrow> (Thrown e, s2))))"

definition sendLoop_iteration :: "collab \<Rightarrow> bool \<Rightarrow> sender \<Rightarrow> loop_ctl \<times> sender" where
  "sendLoop_iteration E sent s = sendLoop_resume E sent (sendLoop_acks s)"

fun sendLoop_iterations :: "collab \<Rightarrow> bool list \<Rightarrow> sender \<Rightarrow> loop_ctl \<times> sender" where
  \<comment> \<open>\<open>while (this._userConnected && !this._reconnecting)\<close>, one iteration for each element\<close>
  "sendLoop_iterations E [] s = (Continue, s)"
| "sendLoop_iterations E (sent # rest) s =
     (if u_userConnected s \<and> \<not> u_reconnecting s then
        (case sendLoop_iteration E sent s of
           (Continue, s1) \<Rightarrow> sendLoop_iterations E rest s1
         | (c, s1) \<Rightarrow> (c, s1))
      else (Exit, s))"

definition u_sendLoop_start :: "sender \<Rightarrow> sender" where
  \<comment> \<open>the call \<open>this._sendLoop()\<close> up to its first \<open>await\<close>: a new \<open>MessagePacker\<close>, then
     the top of the first iteration\<close>
  "u_sendLoop_start s =
     (let s1 = s\<lparr>u_sendQueue := []\<rparr> in
      if u_userConnected s1 \<and> \<not> u_reconnecting s1 then sendLoop_acks s1 else s1)"

subsection \<open>The receive loop\<close>

datatype recv_input = RecvThrows | DecryptThrows js_error | Received tl_message

definition recvLoop_iteration :: "collab \<Rightarrow> recv_input \<Rightarrow> sender \<Rightarrow> loop_ctl \<times> sender" where
  "recvLoop_iteration E inp s =
     (case inp of
        RecvThrows \<Rightarrow>
          (if \<not> userDisconnected s then (Exit, reconnect s) else (Exit, s))
      | DecryptThrows e \<Rightarrow>
          (case e of
             TypeNotFoundError \<Rightarrow> (Continue, s)
           | SecurityError \<Rightarrow> (Continue, s)
           | InvalidBufferError code \<Rightarrow>
               (if code = 404 then
                  (if u_updateCallback s \<and> u_isMainSender s then
                     (Exit, emit (UpdateConnectionState broken) s)
                   else if u_onConnectionBreak s \<and> \<not> u_isMainSender s then
                     (Exit, emit (OnConnectionBreak (u_dcId s)) s)
                   else (Exit, s))
                else (Exit, reconnect s))
           | _ \<Rightarrow> (Exit, reconnect s))
      | Received message \<Rightarrow> (Continue, snd (u_processMessage E message s)))"

fun u_recvLoop :: "collab \<Rightarrow> recv_input list \<Rightarrow> sender \<Rightarrow> loop_ctl \<times> sender" where
  \<comment> \<open>\<open>while (this._userConnected && !this._reconnecting)\<close>, one iteration for each input;
     \<open>Continue\<close> when the loop is left waiting in \<open>recv\<close>\<close>
  "u_recvLoop E [] s = (Continue, s)"
| "u_recvLoop E (inp # rest) s =
     (if u_userConnected s \<and> \<not> u_reconnecting s then
        (case recvLoop_iteration E inp s of
           (Continue, s1) \<Rightarrow> u_recvLoop E rest s1
         | (c, s1) \<Rightarrow> (c, s1))
      else (Exit, s))"

subsection \<open>Connecting and reconnecting\<close>

definition u_connect :: "collab \<Rightarrow> nat \<Rightarrow> sender \<Rightarrow> js_error option \<times> sender" where
  \<comment> \<open>one call of \<open>_connect\<close>, the \<open>attempt\<close>-th of a \<open>connect\<close>\<close>
  "u_connect E attempt s =
     (case u_connection s of
        Conn c \<Rightarrow>
          (if \<not> transport_connects E attempt then (Some OtherError, s)
           else
             (case (if \<not> authKey s then
                      (case doAuthentication E attempt of
                         None \<Rightarrow> (Some OtherError, s)
                       | Some off \<Rightarrow>
                           (let s1 = s\<lparr>authKey := True, u_state := (u_state s)\<lparr>timeOffset := off\<rparr>\<rparr>
                            in if u_authKeyCallback s1 then
                                 (if authKeyCallback_returns E attempt then None else Some OtherError,
                                  emit (AuthKeyCallback (u_dcId s1)) s1)
                               else (None, s1)))
                    else (None, s\<lparr>u_authenticated := True\<rparr>)) of
                (Some e, s2) \<Rightarrow> (Some e, s2)
              | (None, s2) \<Rightarrow>
                  (None, u_sendLoop_start (s2\<lparr>u_userConnected := True, u_reconnecting := False\<rparr>))))
      | _ \<Rightarrow> (Some TypeError, s))"

partial_function (option) connect_attempts :: "collab \<Rightarrow> nat \<Rightarrow> sender \<Rightarrow> sender option" where
  "connect_attempts E attempt s =
     (if enat attempt < u_retries s then
        (case u_connect E attempt s of
           (None, s1) \<Rightarrow> Some (updateCallback connected s1)
         | (Some e, s1) \<Rightarrow>
             connect_attempts E (attempt + 1)
               (if attempt = 0 then updateCallback disconnected s1 else s1))
      else Some s)"

definition connect :: "collab \<Rightarrow> connection \<Rightarrow> bool \<Rightarrow> sender \<Rightarrow> (bool \<times> sender) option" where
  \<comment> \<open>\<open>None\<close> when the loop over the attempts never ends\<close>
  "connect E c force s =
     (if u_userConnected s \<and> \<not> force then Some (False, s)
      else
        (case connect_attempts E 0 (s\<lparr>isConnecting := True, u_connection := Conn c\<rparr>) of
           None \<Rightarrow> None
         | Some s1 \<Rightarrow> Some (True, s1\<lparr>isConnecting := False\<rparr>)))"

definition u_reconnect :: "collab \<Rightarrow> sender \<Rightarrow> (js_error option \<times> sender) option" where
  \<comment> \<open>the new connection is built from the fields of the current one; reading them
     throws when there is none\<close>
  "u_reconnect E s =
     (let s1 = snd (disconnect E s);
          s2 = sendQueue_append None s1;
          s3 = s2\<lparr>u_state := reset E (u_state s2)\<rparr>
      in case u_connection s3 of
           Conn c \<Rightarrow>
             (case connect E c True s3 of
                None \<Rightarrow> None
              | Some (b, s4) \<Rightarrow>
                  (let s5 = s4\<lparr>u_reconnecting := False\<rparr>;
                       s6 = sendQueue_extend (map Some (map_values (u_pendingState s5))) s5;
                       s7 = s6\<lparr>u_pendingState := []\<rparr>
                   in Some (None, if u_autoReconnectCallback s7 then emit AutoReconnectCallback s7 else s7)))
         | _ \<Rightarrow> Some (Some TypeError, s3))"

definition attempt_succeeds :: "collab \<Rightarrow> nat \<Rightarrow> bool" where
  \<comment> \<open>nothing that \<open>_connect\<close> awaits throws in this attempt\<close>
  "attempt_succeeds E attempt =
     (transport_connects E attempt \<and> doAuthentication E attempt \<noteq> None
      \<and> authKeyCallback_returns E attempt)"

subsection \<open>Runs of the sender\<close>

text \<open>
  One step of a run is one call of a public method, one call of \<open>_reconnect\<close> (the timer
  of \<open>reconnect\<close> firing), one iteration of either loop, or the setter of \<open>dcId\<close>. A run
  is any sequence of steps.
\<close>

inductive step :: "sender \<Rightarrow> sender \<Rightarrow> bool" where
  step_send: "step s (snd (send r s))"
| step_connect: "connect E c force s = Some (b, s') \<Longrightarrow> step s s'"
| step_disconnect: "step s (snd (disconnect E s))"
| step_reconnect: "step s (reconnect s)"
| step_u_reconnect: "u_reconnect E s = Some (r, s') \<Longrightarrow> step s s'"
| step_recvLoop: "step s (snd (recvLoop_iteration E inp s))"
| step_sendLoop: "step s (snd (sendLoop_iteration E sent s))"
| step_set_dcId: "step s (set_dcId d s)"

definition run :: "sender \<Rightarrow> sender \<Rightarrow> bool" where
  "run = step\<^sup>*\<^sup>*"

subsection \<open>Concrete values\<close>

definition big :: "nat \<Rightarrow> int \<Rightarrow> BigInteger" where
  "big r v = \<lparr>big_ref = r, big_val = v\<rparr>"

definition example_state :: MTProtoState where
  "example_state = \<lparr>salt = big 0 0, u_sequence = 1, timeOffset = 0, sessionId = 7\<rparr>"

definition example_collab :: collab where
  "example_collab =
     \<lparr>updateTimeOffset = (\<lambda>st m. st\<lparr>timeOffset := 5\<rparr>),
      reset = (\<lambda>st. st\<lparr>u_sequence := 0, sessionId := sessionId st + 1\<rparr>),
      packer_get = (\<lambda>q st. (None, [], st)),
      tgReadObject = (\<lambda>b. IsUploadFile),
      readResult = (\<lambda>r b. Inr b),
      transport_connects = (\<lambda>attempt. False),
      transport_disconnects = True,
      doAuthentication = (\<lambda>attempt. Some 0),
      authKeyCallback_returns = (\<lambda>attempt. True),
      toNumber = (\<lambda>v. v),
      maxStringLength = 536870888\<rparr>"

definition example_request :: "nat \<Rightarrow> int \<Rightarrow> RequestState" where
  \<comment> \<open>a sent request: \<open>example_request p v\<close> has promise \<open>p\<close> and an id of value \<open>v\<close>\<close>
  "example_request p v =
     \<lparr>request = ApiRequest ''request'' p, msgId = Some (big p v), containerId = None, promise = p\<rparr>"

definition example_sender :: sender where
  \<comment> \<open>a connected sender with two requests awaiting their replies\<close>
  "example_sender =
     (MTProtoSender True example_state (DEFAULT_OPTIONS\<lparr>opt_retries := 2, opt_dcId := 4\<rparr>))
       \<lparr>u_connection := Conn (Connection 0), u_userConnected := True,
        u_pendingState := [(KStr 100, example_request 0 100), (KStr 104, example_request 1 104)],
        nextObject := 2\<rparr>"

definition ack_round :: "nat \<Rightarrow> sender \<Rightarrow> sender" where
  \<comment> \<open>a message arrives, then the send loop runs one iteration\<close>
  "ack_round i s =
     snd (sendLoop_iteration example_collab True
       (snd (recvLoop_iteration example_collab (Received (TLMessage (big (100 + i) (int i)) MsgsAllInfo)) s)))"

definition nine_acks :: sender where
  \<comment> \<open>\<open>example_sender\<close> after nine such rounds\<close>
  "nine_acks = fold ack_round [0, 1, 2, 3, 4, 5, 6, 7, 8] example_sender"

definition example_connects :: collab where
  \<comment> \<open>as \<open>example_collab\<close>, with a transport that connects\<close>
  "example_connects = example_collab\<lparr>transport_connects := (\<lambda>attempt. True)\<rparr>"

section \<open>Properties\<close>

lemmas ex_defs = example_sender_def example_collab_def example_state_def example_request_def
  MTProtoSender_def DEFAULT_OPTIONS_def big_def

subsection \<open>\<open>send\<close>\<close>

text \<open>
  Claim C8. \<open>send(request)\<close> throws when the sender is not connected, and then
  nothing has changed: nothing was enqueued. When the sender is connected, it appends
  a new \<open>RequestState\<close> for the request to the send queue and returns that state's
  promise.
\<close>

theorem send_throws_or_enqueues:
  "(\<not> u_userConnected s \<longrightarrow> send r s = (Inl NotConnected, s)) \<and>
   (u_userConnected s \<longrightarrow>
      fst (send r s) = Inr (nextObject s) \<and>
      u_sendQueue (snd (send r s)) =
        u_sendQueue s @ [Some \<lparr>request = r, msgId = None, containerId = None, promise = nextObject s\<rparr>])"
  by (simp add: send_def newRequestState_def sendQueue_append_def emit_def)

text \<open>
  The theorem at a sender that was never connected and at a connected one.
\<close>

theorem send_throws_or_enqueues_witness:
  "send AuthLogOut (MTProtoSender True example_state DEFAULT_OPTIONS)
     = (Inl NotConnected, MTProtoSender True example_state DEFAULT_OPTIONS) \<and>
   fst (send AuthLogOut example_sender) = Inr 2 \<and>
   u_sendQueue (snd (send AuthLogOut example_sender))
     = [Some \<lparr>request = AuthLogOut, msgId = None, containerId = None, promise = 2\<rparr>]"
  using send_throws_or_enqueues [of "MTProtoSender True example_state DEFAULT_OPTIONS" AuthLogOut]
    send_throws_or_enqueues [of example_sender AuthLogOut]
  by (simp add: ex_defs)

subsection \<open>\<open>_handleStateForgotten\<close>\<close>

text \<open>
  Claim C7 says that \<open>info\<close> has one byte \<open>0x01\<close> for each element of \<open>msgIds\<close>. The
  source passes the list itself to \<open>repeat\<close>, not its length: for a request that names
  two messages the count is \<open>NaN\<close>, and the \<open>MsgsStateInfo\<close> that is enqueued has the
  empty string as its \<open>info\<close>, whatever the two ids are.
\<close>

theorem handleStateForgotten_two_ids:
  "u_handleStateForgotten E mid [a, b] s =
     (None, sendQueue_append
        (Some \<lparr>request = MsgsStateInfo mid '''', msgId = None, containerId = None,
               promise = nextObject s\<rparr>)
        (s\<lparr>nextObject := Suc (nextObject s)\<rparr>))"
  by (simp add: u_handleStateForgotten_def repeat_count_def newRequestState_def)

subsection \<open>What \<open>_popStates\<close> returns\<close>

text \<open>
  The three ways \<open>_popStates\<close> finds states, for a pending map as the send loop fills
  it: the entry stored under the id; else every entry whose container has the id, in
  the map's order, all removed; else the first of the last acks whose \<open>msgId\<close> is the very
  object asked for. In such a map \<open>_popStates\<close> never throws and never returns
  \<open>undefined\<close>.
\<close>

lemma collect_toPop_filter:
  "collect_toPop sts m = map msgId (filter (in_container m) sts)"
  by (induction sts) simp_all

lemma scan_lastAcks_find:
  "scan_lastAcks acks m =
     (case find (\<lambda>ack. strict_eq (msgId ack) m) acks of None \<Rightarrow> [] | Some ack \<Rightarrow> [Some ack])"
  by (induction acks) simp_all

lemma pop_each_skip:
  assumes "\<forall>x. Some x \<in> set xs \<longrightarrow> toString x \<noteq> k"
  shows "pop_each xs ((k, st) # m) = (fst (pop_each xs m), (k, st) # snd (pop_each xs m))"
  using assms
proof (induction xs m rule: pop_each.induct)
  case (1 m)
  show ?case by simp
next
  case (2 xs m)
  show ?case by simp
next
  case (3 x xs m)
  have k: "toString x \<noteq> k" using 3(2) by simp
  have "pop_each xs ((k, st) # map_delete (toString x) m)
      = (fst (pop_each xs (map_delete (toString x) m)),
         (k, st) # snd (pop_each xs (map_delete (toString x) m)))"
    using 3 by simp
  with k show ?case
    by (cases "pop_each xs (map_delete (toString x) m)")
      (auto simp: map_delete_def map_get_def split: sum.splits)
qed

lemma pop_each_keyed:
  assumes "keyed_by_msgId m"
  shows "pop_each (map msgId (filter P (map snd m))) m
      = (Inr (map Some (filter P (map snd m))), filter (\<lambda>p. \<not> P (snd p)) m)"
  using assms
proof (induction m)
  case Nil
  show ?case by simp
next
  case (Cons p m)
  obtain k st where p: "p = (k, st)" by (cases p)
  from Cons.prems p obtain x where x: "msgId st = Some x" "k = toString x"
    and fresh: "k \<notin> fst ` set m" and rest: "keyed_by_msgId m"
    by (auto simp: keyed_by_msgId_def split: option.splits)
  note IH = Cons.IH [OF rest]
  have del: "map_delete k m = m"
    using fresh by (auto simp: map_delete_def filter_id_conv image_iff)
  show ?case
  proof (cases "P st")
    case True
    then show ?thesis
      using p x IH del by (simp add: map_delete_def map_get_def)
  next
    case False
    have "\<forall>y. Some y \<in> set (map msgId (filter P (map snd m))) \<longrightarrow> toString y \<noteq> k"
    proof (intro allI impI)
      fix y
      assume "Some y \<in> set (map msgId (filter P (map snd m)))"
      then obtain q where q: "q \<in> set m" "msgId (snd q) = Some y" by auto
      with rest have "fst q = toString y"
        by (auto simp: keyed_by_msgId_def split: option.splits)
      with q(1) fresh show "toString y \<noteq> k" by (metis image_eqI)
    qed
    from pop_each_skip [OF this, of st m] False p IH show ?thesis by simp
  qed
qed

lemma popStates_direct:
  assumes "map_get (u_pendingState s) (toString m) = Some st"
  shows "u_popStates m s =
     (Inr [Some st],
      emit (Popped m [Some st]) (s\<lparr>u_pendingState := map_delete (toString m) (u_pendingState s)\<rparr>))"
  using assms by (simp add: u_popStates_def)

lemma popStates_container:
  assumes "map_get (u_pendingState s) (toString m) = None"
    and "keyed_by_msgId (u_pendingState s)"
    and "filter (in_container m) (map_values (u_pendingState s)) \<noteq> []"
  shows "u_popStates m s =
     (Inr (map Some (filter (in_container m) (map_values (u_pendingState s)))),
      emit (Popped m (map Some (filter (in_container m) (map_values (u_pendingState s)))))
        (s\<lparr>u_pendingState := filter (\<lambda>p. \<not> in_container m (snd p)) (u_pendingState s)\<rparr>))"
  using assms pop_each_keyed [OF assms(2), of "in_container m"]
  by (simp add: u_popStates_def collect_toPop_filter map_values_def)

lemma popStates_lastAcks:
  assumes "map_get (u_pendingState s) (toString m) = None"
    and "filter (in_container m) (map_values (u_pendingState s)) = []"
  shows "u_popStates m s =
     (Inr (case find (\<lambda>ack. strict_eq (msgId ack) m) (u_lastAcks s) of
             None \<Rightarrow> [] | Some ack \<Rightarrow> [Some ack]),
      emit (Popped m (case find (\<lambda>ack. strict_eq (msgId ack) m) (u_lastAcks s) of
             None \<Rightarrow> [] | Some ack \<Rightarrow> [Some ack])) s)"
  using assms by (simp add: u_popStates_def collect_toPop_filter scan_lastAcks_find Let_def)

lemma popStates_defined:
  assumes "keyed_by_msgId (u_pendingState s)"
  shows "\<exists>sts. fst (u_popStates m s) = Inr (map Some sts)"
proof (cases "map_get (u_pendingState s) (toString m)")
  case (Some st)
  from popStates_direct [OF this] have "fst (u_popStates m s) = Inr (map Some [st])" by simp
  then show ?thesis by blast
next
  case None
  show ?thesis
  proof (cases "filter (in_container m) (map_values (u_pendingState s)) = []")
    case False
    from popStates_container [OF None assms False] show ?thesis by auto
  next
    case True
    from popStates_lastAcks [OF None True]
    have "fst (u_popStates m s) = Inr (map Some
        (case find (\<lambda>ack. strict_eq (msgId ack) m) (u_lastAcks s) of None \<Rightarrow> [] | Some ack \<Rightarrow> [ack]))"
      by (simp split: option.splits)
    then show ?thesis by blast
  qed
qed

subsection \<open>\<open>_popStates\<close> and \<open>_handleBadNotification\<close>\<close>

text \<open>
  Claim C6 says that the scan of the last acks returns the first ack whose \<open>msgId\<close>
  matches. The source compares with \<open>===\<close>, which on two \<open>BigInteger\<close> objects is true
  only for the same object, where the two earlier steps compare the numbers
  (\<open>toString\<close>, \<open>equals\<close>). An ack whose id is the number 5 is not found by a \<open>badMsgId\<close>
  read from the wire, which is another object for the number 5.
\<close>

theorem popStates_lastAcks_by_reference:
  "fst (u_popStates (big 9 5)
      (example_sender\<lparr>u_pendingState := [],
          u_lastAcks := [\<lparr>request = MsgsAckRequest [big 7 900], msgId = Some (big 3 5),
                          containerId = None, promise = 2\<rparr>]\<rparr>)) = Inr []"
  by (simp add: u_popStates_def map_get_def map_values_def strict_eq_def big_def)

lemma popStates_frame:
  assumes "u_popStates m s = (r, s1)"
  shows "u_sendQueue s1 = u_sendQueue s" "u_state s1 = u_state s"
    "userDisconnected s1 = userDisconnected s" "u_lastAcks s1 = u_lastAcks s"
    "u_pendingAck s1 = u_pendingAck s" "nextObject s1 = nextObject s"
    "\<And>states. r = Inr states \<Longrightarrow> trace s1 = trace s @ [Popped m states]"
    "\<And>e. r = Inl e \<Longrightarrow> trace s1 = trace s"
  using assms
  by (auto simp: u_popStates_def emit_def Let_def split: option.splits if_splits prod.splits sum.splits)

lemma popStates_set_salt:
  "fst (u_popStates m (set_salt x s)) = fst (u_popStates m s)"
  by (auto simp: u_popStates_def set_salt_def emit_def Let_def split: option.splits if_splits prod.splits sum.splits)

lemma reject_each_defined:
  "reject_each code (map Some sts) s =
     (None, s\<lparr>trace := trace s @ map (\<lambda>st. Reject st (BadMessageError (request st) code)) sts\<rparr>)"
  by (induction sts arbitrary: s) (simp_all add: emit_def)

lemma reject_each_frame:
  "u_sendQueue (snd (reject_each code sts s)) = u_sendQueue s \<and>
   u_state (snd (reject_each code sts s)) = u_state s \<and>
   userDisconnected (snd (reject_each code sts s)) = userDisconnected s \<and>
   u_lastAcks (snd (reject_each code sts s)) = u_lastAcks s"
  by (induction code sts s rule: reject_each.induct) (simp_all add: emit_def)

text \<open>
  Claim C2. For a \<open>BadMsgNotification\<close> whose \<open>badMsgId\<close> pops the states \<open>states\<close>:
  with error code 16 or 17 \<open>updateTimeOffset(message.msgId)\<close> is called and the popped
  states are enqueued again; with 32 the sequence grows by 64 and they are enqueued
  again; with 33 the sequence shrinks by 16 and they are enqueued again; with any
  other code every popped state is rejected with \<open>BadMessageError(request, code)\<close> and
  nothing is enqueued.
\<close>

theorem handleBadNotification_by_errorCode:
  assumes "u_popStates badMsgId s = (Inr states, s1)"
    and "u_handleBadNotification E mid badMsgId errorCode s = (r, s')"
  shows "(errorCode = 16 \<or> errorCode = 17 \<longrightarrow>
            r = None \<and> u_state s' = updateTimeOffset E (u_state s) mid \<and>
            u_sendQueue s' = u_sendQueue s @ states \<and>
            trace s' = trace s @ [Popped badMsgId states, TimeOffsetUpdated mid, Enqueued states])
       \<and> (errorCode = 32 \<longrightarrow>
            r = None \<and> u_state s' = (u_state s)\<lparr>u_sequence := u_sequence (u_state s) + 64\<rparr> \<and>
            u_sendQueue s' = u_sendQueue s @ states \<and>
            trace s' = trace s @ [Popped badMsgId states, Enqueued states])
       \<and> (errorCode = 33 \<longrightarrow>
            r = None \<and> u_state s' = (u_state s)\<lparr>u_sequence := u_sequence (u_state s) - 16\<rparr> \<and>
            u_sendQueue s' = u_sendQueue s @ states \<and>
            trace s' = trace s @ [Popped badMsgId states, Enqueued states])
       \<and> (errorCode \<notin> {16, 17, 32, 33} \<longrightarrow>
            u_sendQueue s' = u_sendQueue s \<and> u_state s' = u_state s \<and>
            (states = map Some sts \<longrightarrow>
               r = None \<and>
               trace s' = trace s @ Popped badMsgId states #
                  map (\<lambda>st. Reject st (BadMessageError (request st) errorCode)) sts))"
proof -
  note f = popStates_frame [OF assms(1)]
  have rej: "errorCode \<notin> {16, 17, 32, 33} \<Longrightarrow> reject_each errorCode states s1 = (r, s')"
    using assms by (simp add: u_handleBadNotification_def)
  have other: "u_sendQueue s' = u_sendQueue s \<and> u_state s' = u_state s \<and>
      (states = map Some sts \<longrightarrow>
         r = None \<and>
         trace s' = trace s @ Popped badMsgId states #
            map (\<lambda>st. Reject st (BadMessageError (request st) errorCode)) sts)"
    if "errorCode \<notin> {16, 17, 32, 33}"
  proof -
    have e: "s' = snd (reject_each errorCode states s1)" "r = fst (reject_each errorCode states s1)"
      using rej [OF that] by simp_all
    show ?thesis
      using e f reject_each_frame [of errorCode states s1]
      by (auto simp: reject_each_defined)
  qed
  have resend: "(errorCode = 16 \<or> errorCode = 17 \<longrightarrow>
            r = None \<and> u_state s' = updateTimeOffset E (u_state s) mid \<and>
            u_sendQueue s' = u_sendQueue s @ states \<and>
            trace s' = trace s @ [Popped badMsgId states, TimeOffsetUpdated mid, Enqueued states])
       \<and> (errorCode = 32 \<longrightarrow>
            r = None \<and> u_state s' = (u_state s)\<lparr>u_sequence := u_sequence (u_state s) + 64\<rparr> \<and>
            u_sendQueue s' = u_sendQueue s @ states \<and>
            trace s' = trace s @ [Popped badMsgId states, Enqueued states])
       \<and> (errorCode = 33 \<longrightarrow>
            r = None \<and> u_state s' = (u_state s)\<lparr>u_sequence := u_sequence (u_state s) - 16\<rparr> \<and>
            u_sendQueue s' = u_sendQueue s @ states \<and>
            trace s' = trace s @ [Popped badMsgId states, Enqueued states])"
    using assms f by (auto simp: u_handleBadNotification_def sendQueue_extend_def emit_def)
  show ?thesis using resend other by blast
qed

text \<open>
  The theorem at the codes 16, 32, 33 and 48, for the first pending request of
  \<open>example_sender\<close>.
\<close>

theorem handleBadNotification_by_errorCode_witness:
  "u_state (snd (u_handleBadNotification example_collab (big 50 999) (big 9 100) 16 example_sender))
     = example_state\<lparr>timeOffset := 5\<rparr> \<and>
   u_sendQueue (snd (u_handleBadNotification example_collab (big 50 999) (big 9 100) 16 example_sender))
     = [Some (example_request 0 100)] \<and>
   u_state (snd (u_handleBadNotification example_collab (big 50 999) (big 9 100) 32 example_sender))
     = example_state\<lparr>u_sequence := 65\<rparr> \<and>
   u_sendQueue (snd (u_handleBadNotification example_collab (big 50 999) (big 9 100) 32 example_sender))
     = [Some (example_request 0 100)] \<and>
   u_state (snd (u_handleBadNotification example_collab (big 50 999) (big 9 100) 33 example_sender))
     = example_state\<lparr>u_sequence := - 15\<rparr> \<and>
   u_sendQueue (snd (u_handleBadNotification example_collab (big 50 999) (big 9 100) 48 example_sender))
     = [] \<and>
   trace (snd (u_handleBadNotification example_collab (big 50 999) (big 9 100) 48 example_sender))
     = [Popped (big 9 100) [Some (example_request 0 100)],
        Reject (example_request 0 100) (BadMessageError (ApiRequest ''request'' 0) 48)]"
proof -
  have p: "u_popStates (big 9 100) example_sender
      = (Inr [Some (example_request 0 100)], snd (u_popStates (big 9 100) example_sender))"
    by (simp add: u_popStates_def map_get_def toString_def ex_defs)
  have h: "u_handleBadNotification example_collab (big 50 999) (big 9 100) c example_sender
      = (fst (u_handleBadNotification example_collab (big 50 999) (big 9 100) c example_sender),
         snd (u_handleBadNotification example_collab (big 50 999) (big 9 100) c example_sender))" for c
    by simp
  have e: "u_state example_sender = example_state" "u_sendQueue example_sender = []"
    "trace example_sender = []" "request (example_request 0 100) = ApiRequest ''request'' 0"
    "updateTimeOffset example_collab example_state (big 50 999) = example_state\<lparr>timeOffset := 5\<rparr>"
    "u_sequence example_state = 1"
    by (simp_all add: ex_defs)
  show ?thesis
    using handleBadNotification_by_errorCode [OF p h, of 16]
      handleBadNotification_by_errorCode [OF p h, of 32]
      handleBadNotification_by_errorCode [OF p h, of 33]
      handleBadNotification_by_errorCode [OF p h, of 48 "[example_request 0 100]"]
    by (simp add: e)
qed

subsection \<open>\<open>_handleBadServerSalt\<close>\<close>

text \<open>
  Claim C3. \<open>_handleBadServerSalt\<close> assigns the new salt first: the assignment is the
  first effect of the handler, and the states popped for \<open>badMsgId\<close> are popped and
  enqueued after it, in this order.
\<close>

theorem handleBadServerSalt_salt_first:
  assumes "u_handleBadServerSalt badMsgId newServerSalt s = (r, s')"
  shows "salt (u_state s') = newServerSalt \<and>
         (\<exists>later. trace s' = trace s @ SaltAssigned newServerSalt # later) \<and>
         (fst (u_popStates badMsgId s) = Inr states \<longrightarrow>
            r = None \<and>
            u_sendQueue s' = u_sendQueue s @ states \<and>
            trace s' = trace s @
              [SaltAssigned newServerSalt, Popped badMsgId states, Enqueued states])"
proof -
  obtain r2 s2 where p: "u_popStates badMsgId (set_salt newServerSalt s) = (r2, s2)"
    by (cases "u_popStates badMsgId (set_salt newServerSalt s)")
  note f = popStates_frame [OF p]
  have r2: "r2 = fst (u_popStates badMsgId s)"
    using p popStates_set_salt [of badMsgId newServerSalt s] by simp
  have s1: "salt (u_state (set_salt newServerSalt s)) = newServerSalt"
    "trace (set_salt newServerSalt s) = trace s @ [SaltAssigned newServerSalt]"
    "u_sendQueue (set_salt newServerSalt s) = u_sendQueue s"
    by (simp_all add: set_salt_def emit_def)
  show ?thesis
  proof (cases r2)
    case (Inl e)
    then show ?thesis
      using assms p f s1 r2 by (auto simp: u_handleBadServerSalt_def)
  next
    case (Inr sts)
    then show ?thesis
      using assms p f s1 r2
      by (auto simp: u_handleBadServerSalt_def sendQueue_extend_def emit_def)
  qed
qed

text \<open>
  The theorem for the second pending request of \<open>example_sender\<close> and the salt
  \<open>0xDEADBEEF\<close>.
\<close>

theorem handleBadServerSalt_salt_first_witness:
  "salt (u_state (snd (u_handleBadServerSalt (big 9 104) (big 8 3735928559) example_sender)))
     = big 8 3735928559 \<and>
   fst (u_handleBadServerSalt (big 9 104) (big 8 3735928559) example_sender) = None \<and>
   u_sendQueue (snd (u_handleBadServerSalt (big 9 104) (big 8 3735928559) example_sender))
     = [Some (example_request 1 104)] \<and>
   trace (snd (u_handleBadServerSalt (big 9 104) (big 8 3735928559) example_sender))
     = [SaltAssigned (big 8 3735928559), Popped (big 9 104) [Some (example_request 1 104)],
        Enqueued [Some (example_request 1 104)]]"
proof -
  have p: "fst (u_popStates (big 9 104) example_sender) = Inr [Some (example_request 1 104)]"
    by (simp add: u_popStates_def map_get_def toString_def ex_defs)
  have h: "u_handleBadServerSalt (big 9 104) (big 8 3735928559) example_sender
      = (fst (u_handleBadServerSalt (big 9 104) (big 8 3735928559) example_sender),
         snd (u_handleBadServerSalt (big 9 104) (big 8 3735928559) example_sender))"
    by simp
  have e: "u_sendQueue example_sender = []" "trace example_sender = []"
    by (simp_all add: ex_defs)
  show ?thesis
    using handleBadServerSalt_salt_first [OF h, of "[Some (example_request 1 104)]"] p
    by (simp add: e)
qed

subsection \<open>The receive loop on a forgotten auth key\<close>

text \<open>
  Claim C5 as it is written fails for a main sender that was given no update callback
  (the default): the loop exits and nothing is emitted.
\<close>

theorem recvLoop_404_without_callback:
  "recvLoop_iteration example_collab (DecryptThrows (InvalidBufferError 404))
      (example_sender\<lparr>u_isMainSender := True\<rparr>)
     = (Exit, example_sender\<lparr>u_isMainSender := True\<rparr>) \<and>
   u_isMainSender (example_sender\<lparr>u_isMainSender := True\<rparr>) \<and>
   trace (example_sender\<lparr>u_isMainSender := True\<rparr>) = []"
  by (simp add: recvLoop_iteration_def ex_defs)

text \<open>
  Claim C5, amended. When decrypting throws \<open>InvalidBufferError\<close> with code 404, the
  receive loop exits and no reconnect is scheduled. A main sender with an update
  callback emits \<open>UpdateConnectionState.broken\<close> through it; a sender that is not the
  main one and has an \<open>onConnectionBreak\<close> calls it with the configured \<open>dcId\<close>; a
  sender without the callback of its kind does nothing else.
\<close>

theorem recvLoop_404:
  assumes "recvLoop_iteration E (DecryptThrows (InvalidBufferError 404)) s = (c, s')"
  shows "c = Exit \<and> u_reconnecting s' = u_reconnecting s \<and>
     (\<exists>new. trace s' = trace s @ new \<and> ReconnectScheduled \<notin> set new) \<and>
     (u_isMainSender s \<and> u_updateCallback s \<longrightarrow>
        trace s' = trace s @ [UpdateConnectionState broken]) \<and>
     (\<not> u_isMainSender s \<and> u_onConnectionBreak s \<longrightarrow>
        trace s' = trace s @ [OnConnectionBreak (u_dcId s)]) \<and>
     (u_isMainSender s \<and> \<not> u_updateCallback s \<longrightarrow> s' = s) \<and>
     (\<not> u_isMainSender s \<and> \<not> u_onConnectionBreak s \<longrightarrow> s' = s)"
  using assms by (auto simp: recvLoop_iteration_def emit_def split: if_splits)

text \<open>
  The theorem at a main sender with and without an update callback, and at another
  sender with and without \<open>onConnectionBreak\<close>.
\<close>

theorem recvLoop_404_witness:
  "fst (recvLoop_iteration example_collab (DecryptThrows (InvalidBufferError 404))
      (example_sender\<lparr>u_isMainSender := True, u_updateCallback := True\<rparr>)) = Exit \<and>
   trace (snd (recvLoop_iteration example_collab (DecryptThrows (InvalidBufferError 404))
      (example_sender\<lparr>u_isMainSender := True, u_updateCallback := True\<rparr>)))
     = [UpdateConnectionState broken] \<and>
   trace (snd (recvLoop_iteration example_collab (DecryptThrows (InvalidBufferError 404))
      (example_sender\<lparr>u_onConnectionBreak := True\<rparr>)))
     = [OnConnectionBreak 4] \<and>
   snd (recvLoop_iteration example_collab (DecryptThrows (InvalidBufferError 404))
      (example_sender\<lparr>u_isMainSender := True\<rparr>)) = example_sender\<lparr>u_isMainSender := True\<rparr> \<and>
   snd (recvLoop_iteration example_collab (DecryptThrows (InvalidBufferError 404)) example_sender)
     = example_sender"
proof -
  have h: "recvLoop_iteration example_collab (DecryptThrows (InvalidBufferError 404)) x
      = (fst (recvLoop_iteration example_collab (DecryptThrows (InvalidBufferError 404)) x),
         snd (recvLoop_iteration example_collab (DecryptThrows (InvalidBufferError 404)) x))" for x
    by simp
  have e: "trace example_sender = []" "u_dcId example_sender = 4"
    "\<not> u_isMainSender example_sender" "\<not> u_onConnectionBreak example_sender"
    "\<not> u_updateCallback example_sender"
    by (simp_all add: ex_defs)
  show ?thesis
    using recvLoop_404 [OF h, of "example_sender\<lparr>u_isMainSender := True, u_updateCallback := True\<rparr>"]
      recvLoop_404 [OF h, of "example_sender\<lparr>u_onConnectionBreak := True\<rparr>"]
      recvLoop_404 [OF h, of "example_sender\<lparr>u_isMainSender := True\<rparr>"]
      recvLoop_404 [OF h, of example_sender]
    by (simp add: e)
qed

subsection \<open>What the handlers leave alone\<close>

lemma popStates_keeps [simp]:
  "userDisconnected (snd (u_popStates m s)) = userDisconnected s"
  "u_lastAcks (snd (u_popStates m s)) = u_lastAcks s"
  using popStates_frame [of m s "fst (u_popStates m s)" "snd (u_popStates m s)"] by simp_all

lemma reject_each_keeps [simp]:
  "userDisconnected (snd (reject_each code sts s)) = userDisconnected s"
  "u_lastAcks (snd (reject_each code sts s)) = u_lastAcks s"
  using reject_each_frame [of code sts s] by simp_all

lemma pendingAck_add_keeps [simp]:
  "userDisconnected (pendingAck_add x s) = userDisconnected s"
  "u_lastAcks (pendingAck_add x s) = u_lastAcks s"
  by (simp_all add: pendingAck_add_def)

lemma handleRPCResult_keeps [simp]:
  "userDisconnected (snd (u_handleRPCResult E reqMsgId err b s)) = userDisconnected s"
  "u_lastAcks (snd (u_handleRPCResult E reqMsgId err b s)) = u_lastAcks s"
  by (simp_all add: u_handleRPCResult_def newRequestState_def sendQueue_append_def emit_def Let_def
      split: option.splits read_outcome.splits sum.splits prod.splits)

lemma handleUpdate_keeps [simp]:
  "userDisconnected (snd (u_handleUpdate obj s)) = userDisconnected s"
  "u_lastAcks (snd (u_handleUpdate obj s)) = u_lastAcks s"
  by (simp_all add: u_handleUpdate_def emit_def split: tl_object.splits)

lemma handlePong_keeps [simp]:
  "userDisconnected (snd (u_handlePong p s)) = userDisconnected s"
  "u_lastAcks (snd (u_handlePong p s)) = u_lastAcks s"
  by (simp_all add: u_handlePong_def emit_def Let_def split: option.splits)

lemma handleBadServerSalt_keeps [simp]:
  "userDisconnected (snd (u_handleBadServerSalt m x s)) = userDisconnected s"
  "u_lastAcks (snd (u_handleBadServerSalt m x s)) = u_lastAcks s"
proof -
  obtain r s1 where p: "u_popStates m (set_salt x s) = (r, s1)"
    by (cases "u_popStates m (set_salt x s)")
  note f = popStates_frame(3,4) [OF p]
  have k: "userDisconnected (set_salt x s) = userDisconnected s"
    "u_lastAcks (set_salt x s) = u_lastAcks s"
    by (simp_all add: set_salt_def emit_def)
  show "userDisconnected (snd (u_handleBadServerSalt m x s)) = userDisconnected s"
    "u_lastAcks (snd (u_handleBadServerSalt m x s)) = u_lastAcks s"
    using p f k
    by (cases r; simp add: u_handleBadServerSalt_def sendQueue_extend_def emit_def)+
qed

lemma handleBadNotification_keeps [simp]:
  "userDisconnected (snd (u_handleBadNotification E mid m code s)) = userDisconnected s"
  "u_lastAcks (snd (u_handleBadNotification E mid m code s)) = u_lastAcks s"
proof -
  obtain r s1 where p: "u_popStates m s = (r, s1)"
    by (cases "u_popStates m s")
  note f = popStates_frame(3,4) [OF p]
  show "userDisconnected (snd (u_handleBadNotification E mid m code s)) = userDisconnected s"
    "u_lastAcks (snd (u_handleBadNotification E mid m code s)) = u_lastAcks s"
    using p f
    by (cases r; simp add: u_handleBadNotification_def sendQueue_extend_def emit_def)+
qed

lemma handleAck_keeps [simp]:
  "userDisconnected (snd (u_handleAck ms s)) = userDisconnected s"
  "u_lastAcks (snd (u_handleAck ms s)) = u_lastAcks s"
  by (induction ms s rule: u_handleAck.induct; simp add: emit_def split: option.splits)+

lemma handle_simple_keeps [simp]:
  "userDisconnected (snd (u_handleDetailedInfo x s)) = userDisconnected s"
  "u_lastAcks (snd (u_handleDetailedInfo x s)) = u_lastAcks s"
  "userDisconnected (snd (u_handleNewDetailedInfo x s)) = userDisconnected s"
  "u_lastAcks (snd (u_handleNewDetailedInfo x s)) = u_lastAcks s"
  "userDisconnected (snd (u_handleNewSessionCreated x s)) = userDisconnected s"
  "u_lastAcks (snd (u_handleNewSessionCreated x s)) = u_lastAcks s"
  "userDisconnected (snd (u_handleFutureSalts x s)) = userDisconnected s"
  "u_lastAcks (snd (u_handleFutureSalts x s)) = u_lastAcks s"
  "userDisconnected (snd (u_handleStateForgotten E x ids s)) = userDisconnected s"
  "u_lastAcks (snd (u_handleStateForgotten E x ids s)) = u_lastAcks s"
  "userDisconnected (snd (u_handleMsgAll s)) = userDisconnected s"
  "u_lastAcks (snd (u_handleMsgAll s)) = u_lastAcks s"
  by (simp_all add: u_handleDetailedInfo_def u_handleNewDetailedInfo_def
      u_handleNewSessionCreated_def set_salt_def u_handleFutureSalts_def
      u_handleStateForgotten_def u_handleMsgAll_def newRequestState_def
      sendQueue_append_def emit_def split: option.splits sum.splits)

lemma processMessage_keeps:
  "userDisconnected (snd (u_processMessage E m s)) = userDisconnected s \<and>
   u_lastAcks (snd (u_processMessage E m s)) = u_lastAcks s"
  "userDisconnected (snd (u_handleContainer E ms s)) = userDisconnected s \<and>
   u_lastAcks (snd (u_handleContainer E ms s)) = u_lastAcks s"
proof (induction E m s and E ms s rule: u_processMessage_u_handleContainer.induct)
  case (18 E m ms s)
  then show ?case
    by (cases "u_processMessage E m s") (auto split: option.splits)
qed simp_all


subsection \<open>What the loops and the public methods leave alone\<close>

lemma reconnect_keeps [simp]:
  "userDisconnected (reconnect s) = userDisconnected s"
  "u_lastAcks (reconnect s) = u_lastAcks s"
  by (simp_all add: reconnect_def emit_def)

lemma recvLoop_iteration_keeps [simp]:
  "userDisconnected (snd (recvLoop_iteration E inp s)) = userDisconnected s"
  "u_lastAcks (snd (recvLoop_iteration E inp s)) = u_lastAcks s"
  by (simp_all add: recvLoop_iteration_def processMessage_keeps emit_def
      split: recv_input.splits js_error.splits)

lemma track_each_keeps [simp]:
  "userDisconnected (snd (track_each sts s)) = userDisconnected s"
  "u_lastAcks (snd (track_each sts s)) = u_lastAcks s"
  by (induction sts s rule: track_each.induct; simp split: option.splits)+

lemma track_batch_keeps [simp]:
  "userDisconnected (snd (track_batch items s)) = userDisconnected s \<and>
   u_lastAcks (snd (track_batch items s)) = u_lastAcks s"
proof (induction items s rule: track_batch.induct)
  case (1 s)
  then show ?case by simp
next
  case (2 st items s)
  have k: "userDisconnected (snd (track_each [st] s)) = userDisconnected s"
    "u_lastAcks (snd (track_each [st] s)) = u_lastAcks s"
    by (rule track_each_keeps)+
  show ?case
    using 2 k by (cases "track_each [st] s") (auto split: option.splits)
next
  case (3 sts items s)
  have k: "userDisconnected (snd (track_each sts s)) = userDisconnected s"
    "u_lastAcks (snd (track_each sts s)) = u_lastAcks s"
    by (rule track_each_keeps)+
  show ?case
    using 3 k by (cases "track_each sts s") (auto split: option.splits)
qed

lemma sendLoop_resume_keeps [simp]:
  "userDisconnected (snd (sendLoop_resume E sent s)) = userDisconnected s"
  "u_lastAcks (snd (sendLoop_resume E sent s)) = u_lastAcks s"
proof -
  obtain res q st where g: "packer_get E (u_sendQueue s) (u_state s) = (res, q, st)"
    by (cases "packer_get E (u_sendQueue s) (u_state s)") auto
  have "userDisconnected (snd (sendLoop_resume E sent s)) = userDisconnected s \<and>
    u_lastAcks (snd (sendLoop_resume E sent s)) = u_lastAcks s"
  proof (cases res)
    case None
    with g show ?thesis by (simp add: sendLoop_resume_def Let_def)
  next
    case (Some b)
    obtain e s2 where tb: "track_batch b (s\<lparr>u_sendQueue := q, u_state := st\<rparr>) = (e, s2)"
      by (cases "track_batch b (s\<lparr>u_sendQueue := q, u_state := st\<rparr>)")
    have "userDisconnected s2 = userDisconnected s \<and> u_lastAcks s2 = u_lastAcks s"
      using track_batch_keeps [of b "s\<lparr>u_sendQueue := q, u_state := st\<rparr>"] tb by simp
    with g Some tb show ?thesis
      by (cases e) (simp_all add: sendLoop_resume_def Let_def)
  qed
  then show "userDisconnected (snd (sendLoop_resume E sent s)) = userDisconnected s"
    "u_lastAcks (snd (sendLoop_resume E sent s)) = u_lastAcks s"
    by simp_all
qed

lemma sendLoop_acks_keeps [simp]:
  "userDisconnected (sendLoop_acks s) = userDisconnected s"
  "u_pendingState (sendLoop_acks s) = u_pendingState s"
  "u_retries (sendLoop_acks s) = u_retries s"
  "u_connection (sendLoop_acks s) = u_connection s"
  "u_userConnected (sendLoop_acks s) = u_userConnected s"
  by (simp_all add: sendLoop_acks_def lastAcks_push_def lastAcks_shift_def newRequestState_def
      sendQueue_append_def emit_def Let_def)

lemma sendLoop_acks_lastAcks:
  "length (u_lastAcks s) \<le> 9 \<Longrightarrow> length (u_lastAcks (sendLoop_acks s)) \<le> 9"
  by (auto simp: sendLoop_acks_def lastAcks_push_def lastAcks_shift_def newRequestState_def
      sendQueue_append_def emit_def Let_def)

lemma updateCallback_keeps [simp]:
  "userDisconnected (updateCallback x s) = userDisconnected s"
  "u_lastAcks (updateCallback x s) = u_lastAcks s"
  "u_pendingState (updateCallback x s) = u_pendingState s"
  "u_retries (updateCallback x s) = u_retries s"
  "u_connection (updateCallback x s) = u_connection s"
  "u_userConnected (updateCallback x s) = u_userConnected s"
  by (simp_all add: updateCallback_def emit_def)

lemma u_connect_keeps [simp]:
  "userDisconnected (snd (u_connect E a s)) = userDisconnected s"
  "u_pendingState (snd (u_connect E a s)) = u_pendingState s"
  "u_retries (snd (u_connect E a s)) = u_retries s"
  "u_connection (snd (u_connect E a s)) = u_connection s"
  by (simp_all add: u_connect_def u_sendLoop_start_def emit_def Let_def
      split: connection_ref.splits option.splits)

lemma u_connect_lastAcks:
  "length (u_lastAcks s) \<le> 9 \<Longrightarrow> length (u_lastAcks (snd (u_connect E a s))) \<le> 9"
  by (auto simp: u_connect_def u_sendLoop_start_def emit_def sendLoop_acks_lastAcks Let_def
      split: connection_ref.splits option.splits)

lemma u_connect_fails:
  "\<forall>k. \<not> transport_connects E k \<Longrightarrow> snd (u_connect E a s) = s \<and> fst (u_connect E a s) \<noteq> None"
  by (simp add: u_connect_def split: connection_ref.splits)

lemma u_connect_succeeds:
  "u_connection s = Conn c \<Longrightarrow> attempt_succeeds E a \<Longrightarrow> fst (u_connect E a s) = None"
  by (auto simp: u_connect_def attempt_succeeds_def Let_def)

lemma connect_attempts_rel:
  assumes "connect_attempts E a s = Some s'"
    and refl: "\<And>x. R x x"
    and trans: "\<And>x y z. R x y \<Longrightarrow> R y z \<Longrightarrow> R x z"
    and conn: "\<And>a x. R x (snd (u_connect E a x))"
    and cb: "\<And>cs x. R x (updateCallback cs x)"
  shows "R s s'"
proof -
  have "E' = E \<longrightarrow> R s s'" if run: "connect_attempts E' a s = Some s'" for E'
  proof (rule connect_attempts.raw_induct [where P = "\<lambda>E' a s y. E' = E \<longrightarrow> R s y", OF _ run])
    fix f E' a s y
    assume IH: "\<And>e a s y. f e a s = Some y \<Longrightarrow> e = E \<longrightarrow> R s y"
      and eq: "(if enat a < u_retries s
                then case u_connect E' a s of
                  (None, s1) \<Rightarrow> Some (updateCallback connected s1)
                | (Some e, s1) \<Rightarrow>
                    f E' (a + 1) (if a = 0 then updateCallback disconnected s1 else s1)
                else Some s) = Some y"
    show "E' = E \<longrightarrow> R s y"
    proof
      assume E: "E' = E"
      show "R s y"
      proof (cases "enat a < u_retries s")
        case False
        with eq show ?thesis by (simp add: refl)
      next
        case True
        obtain r s1 where c: "u_connect E a s = (r, s1)"
          by (cases "u_connect E a s")
        have s1: "R s s1" using conn [of s a] c by simp
        show ?thesis
        proof (cases r)
          case None
          with eq True c E have "y = updateCallback connected s1" by simp
          then show ?thesis using s1 cb trans by blast
        next
          case (Some e)
          with eq True c E
          have "f E (a + 1) (if a = 0 then updateCallback disconnected s1 else s1) = Some y"
            by simp
          from IH [OF this]
          have "R (if a = 0 then updateCallback disconnected s1 else s1) y" by simp
          moreover have "R s1 (if a = 0 then updateCallback disconnected s1 else s1)"
            using cb refl by simp
          ultimately show ?thesis using s1 trans by blast
        qed
      qed
    qed
  qed
  with assms(1) show ?thesis by simp
qed

lemma connect_attempts_finite:
  "u_retries s = enat n \<Longrightarrow> \<exists>s'. connect_attempts E a s = Some s'"
proof (induction "n - a" arbitrary: a s)
  case 0
  then have "\<not> enat a < u_retries s" by simp
  then show ?case by (subst connect_attempts.simps) simp
next
  case (Suc k)
  then have lt: "enat a < u_retries s" by simp
  obtain r s1 where c: "u_connect E a s = (r, s1)"
    by (cases "u_connect E a s")
  have r1: "u_retries s1 = enat n"
    using u_connect_keeps(3) [of E a s] c Suc.prems by simp
  show ?case
  proof (cases r)
    case None
    with lt c show ?thesis by (subst connect_attempts.simps) simp
  next
    case (Some e)
    have "k = n - (a + 1)" using Suc.hyps(2) by simp
    moreover have "u_retries (if a = 0 then updateCallback disconnected s1 else s1) = enat n"
      using r1 by simp
    ultimately obtain s' where
      "connect_attempts E (a + 1) (if a = 0 then updateCallback disconnected s1 else s1) = Some s'"
      using Suc.hyps(1) by blast
    with Some lt c show ?thesis by (subst connect_attempts.simps) simp
  qed
qed

lemma connect_attempts_success:
  "u_connection s = Conn c \<Longrightarrow> attempt_succeeds E (a + k)
    \<Longrightarrow> \<exists>s'. connect_attempts E a s = Some s'"
proof (induction k arbitrary: a s)
  case 0
  then have "fst (u_connect E a s) = None" using u_connect_succeeds by simp
  then obtain s1 where "u_connect E a s = (None, s1)" by (cases "u_connect E a s") simp
  then show ?case by (subst connect_attempts.simps) simp
next
  case (Suc k)
  obtain r s1 where c: "u_connect E a s = (r, s1)"
    by (cases "u_connect E a s")
  have c1: "u_connection s1 = Conn c"
    using u_connect_keeps(4) [of E a s] c Suc.prems by simp
  show ?case
  proof (cases r)
    case None
    with c show ?thesis by (subst connect_attempts.simps) simp
  next
    case (Some e)
    have "u_connection (if a = 0 then updateCallback disconnected s1 else s1) = Conn c"
      using c1 by simp
    moreover have "attempt_succeeds E ((a + 1) + k)" using Suc.prems by simp
    ultimately obtain s' where
      "connect_attempts E (a + 1) (if a = 0 then updateCallback disconnected s1 else s1) = Some s'"
      using Suc.IH by blast
    with Some c show ?thesis by (subst connect_attempts.simps) simp
  qed
qed

lemma connect_attempts_terminates:
  assumes "u_connection s = Conn c" and "u_retries s \<noteq> \<infinity> \<or> attempt_succeeds E i"
  shows "\<exists>s'. connect_attempts E 0 s = Some s'"
proof (cases "u_retries s")
  case (enat n)
  then show ?thesis by (rule connect_attempts_finite)
next
  case infinity
  with assms have "attempt_succeeds E (0 + i)" by simp
  with assms(1) show ?thesis by (rule connect_attempts_success)
qed


lemma connect_attempts_diverges:
  assumes "u_retries s = \<infinity>" and all: "\<forall>k. \<not> transport_connects E k"
  shows "connect_attempts E a s = None"
proof -
  have "E' = E \<longrightarrow> u_retries s \<noteq> \<infinity>" if run: "connect_attempts E' a s = Some y" for E' a s y
  proof (rule connect_attempts.raw_induct
      [where P = "\<lambda>E' a s y. E' = E \<longrightarrow> u_retries s \<noteq> \<infinity>", OF _ run])
    fix f E' a s y
    assume IH: "\<And>e a s y. f e a s = Some y \<Longrightarrow> e = E \<longrightarrow> u_retries s \<noteq> \<infinity>"
      and eq: "(if enat a < u_retries s
                then case u_connect E' a s of
                  (None, s1) \<Rightarrow> Some (updateCallback connected s1)
                | (Some e, s1) \<Rightarrow>
                    f E' (a + 1) (if a = 0 then updateCallback disconnected s1 else s1)
                else Some s) = Some y"
    show "E' = E \<longrightarrow> u_retries s \<noteq> \<infinity>"
    proof (intro impI notI)
      assume E: "E' = E" and inf: "u_retries s = \<infinity>"
      obtain e where c: "u_connect E a s = (Some e, s)"
        using u_connect_fails [OF all, of a s] by (cases "u_connect E a s") auto
      from eq E inf c
      have "f E (a + 1) (if a = 0 then updateCallback disconnected s else s) = Some y"
        by simp
      from IH [OF this] inf show False by (cases "a = 0") simp_all
    qed
  qed
  with assms(1) show ?thesis by (cases "connect_attempts E a s") auto
qed

subsection \<open>\<open>connect\<close> and \<open>_reconnect\<close>\<close>

lemma disconnect_keeps [simp]:
  "userDisconnected (snd (disconnect E s))"
  "u_pendingState (snd (disconnect E s)) = u_pendingState s"
  "u_connection (snd (disconnect E s)) = u_connection s"
  "u_retries (snd (disconnect E s)) = u_retries s"
  "u_lastAcks (snd (disconnect E s)) = u_lastAcks s"
  by (simp_all add: disconnect_def u_disconnect_def sendQueue_rejectAll_def Let_def
      split: connection_ref.splits)

lemma connect_keeps:
  assumes "connect E c force s = Some (b, s')"
  shows "u_pendingState s' = u_pendingState s"
    "userDisconnected s' = userDisconnected s"
    "length (u_lastAcks s) \<le> 9 \<Longrightarrow> length (u_lastAcks s') \<le> 9"
proof -
  let ?R = "\<lambda>x y. u_pendingState y = u_pendingState x \<and> userDisconnected y = userDisconnected x
      \<and> (length (u_lastAcks x) \<le> 9 \<longrightarrow> length (u_lastAcks y) \<le> 9)"
  have "?R s s'"
  proof (cases "u_userConnected s \<and> \<not> force")
    case True
    with assms show ?thesis by (simp add: connect_def)
  next
    case False
    with assms obtain s1 where
      a: "connect_attempts E 0 (s\<lparr>isConnecting := True, u_connection := Conn c\<rparr>) = Some s1"
      and s': "s' = s1\<lparr>isConnecting := False\<rparr>"
      by (auto simp: connect_def split: option.splits)
    have "?R (s\<lparr>isConnecting := True, u_connection := Conn c\<rparr>) s1"
      by (rule connect_attempts_rel [OF a]) (auto simp: u_connect_lastAcks)
    with s' show ?thesis by simp
  qed
  then show "u_pendingState s' = u_pendingState s"
    "userDisconnected s' = userDisconnected s"
    "length (u_lastAcks s) \<le> 9 \<Longrightarrow> length (u_lastAcks s') \<le> 9"
    by simp_all
qed

lemma connect_terminates:
  assumes "u_retries s \<noteq> \<infinity> \<or> attempt_succeeds E i"
  shows "\<exists>b s'. connect E c force s = Some (b, s')"
proof -
  have "\<exists>s1. connect_attempts E 0 (s\<lparr>isConnecting := True, u_connection := Conn c\<rparr>) = Some s1"
    by (rule connect_attempts_terminates [where c = c and i = i]) (use assms in simp_all)
  then show ?thesis by (auto simp: connect_def)
qed

text \<open>
  Claim C9 as it is written fails for the default options: \<open>retries\<close> is \<open>Infinity\<close>,
  and with a transport that never connects the loop over the attempts never ends, so
  \<open>connect\<close> returns nothing.
\<close>

theorem connect_never_returns:
  "connect example_collab (Connection 1) False (MTProtoSender True example_state DEFAULT_OPTIONS)
     = None"
proof -
  have "connect_attempts example_collab 0
      ((MTProtoSender True example_state DEFAULT_OPTIONS)
         \<lparr>isConnecting := True, u_connection := Conn (Connection 1)\<rparr>) = None"
    by (rule connect_attempts_diverges) (simp_all add: ex_defs)
  then show ?thesis by (simp add: connect_def ex_defs)
qed

text \<open>
  Claim C9, amended. \<open>connect\<close> returns \<open>false\<close> exactly when the sender is already
  connected and \<open>force\<close> is not set. In every other case the value it returns is
  \<open>true\<close>, and it does return when the number of retries is finite or some attempt
  succeeds; when every one of finitely many attempts fails it still returns \<open>true\<close>,
  with the sender not connected. With \<open>retries = Infinity\<close> and a transport that never
  connects it does not return.
\<close>

theorem connect_returns_true:
  "(u_userConnected s \<and> \<not> force \<longrightarrow> connect E c force s = Some (False, s)) \<and>
   (\<not> (u_userConnected s \<and> \<not> force) \<longrightarrow>
      (connect E c force s = Some (b, s') \<longrightarrow> b) \<and>
      (u_retries s \<noteq> \<infinity> \<or> attempt_succeeds E i \<longrightarrow>
         (\<exists>s1. connect E c force s = Some (True, s1))) \<and>
      (u_retries s \<noteq> \<infinity> \<and> (\<forall>k. \<not> transport_connects E k) \<and> \<not> u_userConnected s \<longrightarrow>
         (\<exists>s1. connect E c force s = Some (True, s1) \<and> \<not> u_userConnected s1)) \<and>
      (u_retries s = \<infinity> \<and> (\<forall>k. \<not> transport_connects E k) \<longrightarrow>
         connect E c force s = None))"
proof -
  have ret: "b" if "\<not> (u_userConnected s \<and> \<not> force)" "connect E c force s = Some (b, s')" for b s'
    using that by (auto simp: connect_def split: option.splits)
  have terminates: "\<exists>s1. connect E c force s = Some (True, s1)"
    if "\<not> (u_userConnected s \<and> \<not> force)" "u_retries s \<noteq> \<infinity> \<or> attempt_succeeds E i" for i
    using connect_terminates [OF that(2), of c force] ret [OF that(1)] by auto
  have fails: "\<exists>s1. connect E c force s = Some (True, s1) \<and> \<not> u_userConnected s1"
    if nc: "\<not> u_userConnected s" and fin: "u_retries s \<noteq> \<infinity>"
      and all: "\<forall>k. \<not> transport_connects E k"
  proof -
    obtain s1 where a: "connect_attempts E 0 (s\<lparr>isConnecting := True, u_connection := Conn c\<rparr>) = Some s1"
      using connect_attempts_terminates [of "s\<lparr>isConnecting := True, u_connection := Conn c\<rparr>" c E 0] fin
      by auto
    have "u_userConnected s1 = u_userConnected (s\<lparr>isConnecting := True, u_connection := Conn c\<rparr>)"
      by (rule connect_attempts_rel [OF a]) (simp_all add: u_connect_fails [OF all])
    with a nc show ?thesis by (simp add: connect_def)
  qed
  have diverges: "connect E c force s = None"
    if "\<not> (u_userConnected s \<and> \<not> force)" "u_retries s = \<infinity>" "\<forall>k. \<not> transport_connects E k"
    using that connect_attempts_diverges [of "s\<lparr>isConnecting := True, u_connection := Conn c\<rparr>" E 0]
    by (simp add: connect_def)
  show ?thesis
    using ret terminates fails diverges by (auto simp: connect_def)
qed

text \<open>
  The theorem at a connected sender, at a disconnected sender with two retries whose
  transport never connects, and at a sender with \<open>retries = Infinity\<close>.
\<close>

theorem connect_returns_true_witness:
  "connect example_collab (Connection 1) False example_sender = Some (False, example_sender) \<and>
   (\<exists>s1. connect example_collab (Connection 1) False (example_sender\<lparr>u_userConnected := False\<rparr>)
            = Some (True, s1) \<and> \<not> u_userConnected s1) \<and>
   connect example_collab (Connection 1) True (example_sender\<lparr>u_retries := \<infinity>\<rparr>) = None"
  using connect_returns_true [where s = example_sender and force = False
      and E = example_collab and c = "Connection 1"]
    connect_returns_true [where s = "example_sender\<lparr>u_userConnected := False\<rparr>" and force = False
      and E = example_collab and c = "Connection 1"]
    connect_returns_true [where s = "example_sender\<lparr>u_retries := \<infinity>\<rparr>" and force = True
      and E = example_collab and c = "Connection 1"]
  by (simp add: ex_defs)

lemma u_reconnect_terminates:
  assumes "u_connection s = Conn c" and "u_retries s \<noteq> \<infinity> \<or> attempt_succeeds E i"
  shows "\<exists>s1. u_reconnect E s = Some (None, s1)"
proof -
  let ?s3 = "(sendQueue_append None (snd (disconnect E s)))
      \<lparr>u_state := reset E (u_state (sendQueue_append None (snd (disconnect E s))))\<rparr>"
  have c3: "u_connection ?s3 = Conn c" "u_retries ?s3 = u_retries s"
    using assms(1) by (simp_all add: sendQueue_append_def emit_def)
  obtain b s4 where "connect E c True ?s3 = Some (b, s4)"
    using connect_terminates [of ?s3 E i c True] assms(2) c3 by auto
  with c3 show ?thesis
    by (simp add: u_reconnect_def Let_def)
qed

lemma u_reconnect_result:
  assumes "u_reconnect E s = Some (r, s')"
  shows "userDisconnected s'"
    "length (u_lastAcks s) \<le> 9 \<Longrightarrow> length (u_lastAcks s') \<le> 9"
    "r = None \<Longrightarrow> u_pendingState s' = [] \<and>
       (\<exists>q. u_sendQueue s' = q @ map Some (map_values (u_pendingState s)))"
proof -
  let ?s3 = "(sendQueue_append None (snd (disconnect E s)))
      \<lparr>u_state := reset E (u_state (sendQueue_append None (snd (disconnect E s))))\<rparr>"
  have k3: "userDisconnected ?s3" "u_lastAcks ?s3 = u_lastAcks s"
    "u_pendingState ?s3 = u_pendingState s" "u_connection ?s3 = u_connection s"
    by (simp_all add: sendQueue_append_def emit_def)
  have "userDisconnected s' \<and> (length (u_lastAcks s) \<le> 9 \<longrightarrow> length (u_lastAcks s') \<le> 9) \<and>
      (r = None \<longrightarrow> u_pendingState s' = [] \<and>
         (\<exists>q. u_sendQueue s' = q @ map Some (map_values (u_pendingState s))))"
  proof (cases "u_connection s")
    case (Conn c)
    with assms k3(4) obtain b s4 where c: "connect E c True ?s3 = Some (b, s4)"
      by (auto simp: u_reconnect_def Let_def split: option.splits)
    note k4 = connect_keeps [OF c]
    have "s' = (let s7 = (sendQueue_extend (map Some (map_values (u_pendingState s4)))
                (s4\<lparr>u_reconnecting := False\<rparr>))\<lparr>u_pendingState := []\<rparr>
           in if u_autoReconnectCallback s7 then emit AutoReconnectCallback s7 else s7)"
      using assms c Conn k3(4) by (auto simp: u_reconnect_def Let_def)
    then show ?thesis
      using k3 k4 by (auto simp: Let_def sendQueue_extend_def emit_def)
  next
    case Undefined
    with assms k3 show ?thesis by (auto simp: u_reconnect_def Let_def)
  next
    case Null
    with assms k3 show ?thesis by (auto simp: u_reconnect_def Let_def)
  qed
  then show "userDisconnected s'"
    "length (u_lastAcks s) \<le> 9 \<Longrightarrow> length (u_lastAcks s') \<le> 9"
    "r = None \<Longrightarrow> u_pendingState s' = [] \<and>
       (\<exists>q. u_sendQueue s' = q @ map Some (map_values (u_pendingState s)))"
    by simp_all
qed

text \<open>
  Claim C1. When \<open>_reconnect\<close> completes, the pending-state map is empty and every
  \<open>RequestState\<close> that was in it before is in the send queue: the queue ends with the
  states of the old map, in the map's order. \<open>_reconnect\<close> does complete when the
  sender has a connection and the number of retries is finite or some attempt
  succeeds.
\<close>

theorem reconnect_requeues_pending:
  "(u_reconnect E s = Some (None, s') \<longrightarrow>
      u_pendingState s' = [] \<and>
      (\<exists>q. u_sendQueue s' = q @ map Some (map_values (u_pendingState s))) \<and>
      (\<forall>st \<in> set (map_values (u_pendingState s)). Some st \<in> set (u_sendQueue s'))) \<and>
   (u_connection s = Conn c \<and> (u_retries s \<noteq> \<infinity> \<or> attempt_succeeds E i) \<longrightarrow>
      (\<exists>s1. u_reconnect E s = Some (None, s1)))"
  using u_reconnect_result(3) [of E s None s'] u_reconnect_terminates [of s c E i]
  by auto

text \<open>
  The theorem at \<open>example_sender\<close>, whose two pending requests end up in the queue.
\<close>

theorem reconnect_requeues_pending_witness:
  "\<exists>s1. u_reconnect example_collab example_sender = Some (None, s1) \<and>
      u_pendingState s1 = [] \<and>
      (\<exists>q. u_sendQueue s1 = q @ [Some (example_request 0 100), Some (example_request 1 104)])"
proof -
  have e: "u_connection example_sender = Conn (Connection 0)" "u_retries example_sender \<noteq> \<infinity>"
    "map_values (u_pendingState example_sender) = [example_request 0 100, example_request 1 104]"
    by (simp_all add: ex_defs map_values_def)
  obtain s1 where r: "u_reconnect example_collab example_sender = Some (None, s1)"
    using reconnect_requeues_pending [of example_collab example_sender _ "Connection 0"] e by blast
  show ?thesis
    using reconnect_requeues_pending [of example_collab example_sender s1] r e by simp
qed


subsection \<open>Runs of the sender and \<open>userDisconnected\<close>\<close>

lemma send_keeps [simp]:
  "userDisconnected (snd (send r s)) = userDisconnected s"
  "u_lastAcks (snd (send r s)) = u_lastAcks s"
  by (simp_all add: send_def newRequestState_def sendQueue_append_def emit_def)

lemma sendLoop_iteration_keeps:
  "userDisconnected (snd (sendLoop_iteration E sent s)) = userDisconnected s"
  "length (u_lastAcks s) \<le> 9 \<Longrightarrow> length (u_lastAcks (snd (sendLoop_iteration E sent s))) \<le> 9"
  by (simp_all add: sendLoop_iteration_def sendLoop_acks_lastAcks)

lemma step_keeps:
  assumes "step s s'"
  shows "userDisconnected s \<Longrightarrow> userDisconnected s'"
    and "length (u_lastAcks s) \<le> 9 \<Longrightarrow> length (u_lastAcks s') \<le> 9"
  using assms
  by (induction rule: step.induct)
    (simp_all add: connect_keeps u_reconnect_result sendLoop_iteration_keeps set_dcId_def)

lemma run_keeps:
  assumes "run s s'"
  shows "userDisconnected s \<Longrightarrow> userDisconnected s'"
    and "length (u_lastAcks s) \<le> 9 \<Longrightarrow> length (u_lastAcks s') \<le> 9"
  using assms unfolding run_def
  by (induction rule: rtranclp_induct) (simp_all add: step_keeps)

text \<open>
  Claim C10. \<open>_reconnect\<close> calls the public \<open>disconnect\<close>, which sets
  \<open>userDisconnected\<close>, and no step of any run of the sender sets it back: once a
  \<open>_reconnect\<close> has returned, a receive error at any later point of the run makes the
  receive loop exit with the sender unchanged, so no reconnect is scheduled.
\<close>

theorem receive_error_after_reconnect:
  assumes "u_reconnect E s = Some (r, s1)"
    and "run s1 s2"
    and "recvLoop_iteration E' RecvThrows s2 = (c, s3)"
  shows "userDisconnected s1 \<and> userDisconnected s2 \<and> c = Exit \<and> s3 = s2"
proof -
  have d1: "userDisconnected s1" using assms(1) by (rule u_reconnect_result(1))
  then have d2: "userDisconnected s2" using run_keeps(1) [OF assms(2)] by simp
  with assms(3) d1 show ?thesis by (simp add: recvLoop_iteration_def)
qed

text \<open>
  The theorem at \<open>example_sender\<close> with a transport that connects: after the reconnect
  the sender is connected and both loops run, a request is sent, and then \<open>recv\<close>
  throws.
\<close>

theorem receive_error_after_reconnect_witness:
  "\<exists>s1. u_reconnect example_connects example_sender = Some (None, s1) \<and>
      u_userConnected s1 \<and> \<not> u_reconnecting s1 \<and> userDisconnected s1 \<and>
      recvLoop_iteration example_connects RecvThrows (snd (send AuthLogOut s1))
        = (Exit, snd (send AuthLogOut s1))"
proof -
  have "\<exists>s1. u_reconnect example_connects example_sender = Some (None, s1) \<and>
      u_userConnected s1 \<and> \<not> u_reconnecting s1"
    unfolding u_reconnect_def connect_def
    by (subst connect_attempts.simps)
      (simp add: ex_defs example_connects_def disconnect_def u_disconnect_def
        sendQueue_rejectAll_def sendQueue_append_def sendQueue_extend_def emit_def
        updateCallback_def u_connect_def u_sendLoop_start_def sendLoop_acks_def
        map_values_def List.map_filter_def Let_def numeral_eq_enat)
  then obtain s1 where r: "u_reconnect example_connects example_sender = Some (None, s1)"
    and u: "u_userConnected s1" "\<not> u_reconnecting s1"
    by blast
  have "run s1 (snd (send AuthLogOut s1))"
    unfolding run_def by (rule r_into_rtranclp) (rule step_send)
  from receive_error_after_reconnect [OF r this, of example_connects]
  have "userDisconnected s1 \<and>
      recvLoop_iteration example_connects RecvThrows (snd (send AuthLogOut s1))
        = (Exit, snd (send AuthLogOut s1))"
    by (cases "recvLoop_iteration example_connects RecvThrows (snd (send AuthLogOut s1))") simp
  with r u show ?thesis by blast
qed

subsection \<open>The last acks\<close>

lemma ack_round_effect:
  assumes "u_pendingAck s = []"
  shows "u_pendingAck (ack_round i s) = []"
    and "nextObject (ack_round i s) = Suc (nextObject s)"
    and "map promise (u_lastAcks (ack_round i s)) =
      (if 9 \<le> length (u_lastAcks s) then tl (map promise (u_lastAcks s) @ [nextObject s])
       else map promise (u_lastAcks s) @ [nextObject s])"
  using assms
  by (simp_all add: ack_round_def sendLoop_iteration_def sendLoop_resume_def sendLoop_acks_def
      lastAcks_push_def lastAcks_shift_def newRequestState_def sendQueue_append_def emit_def
      recvLoop_iteration_def u_handleMsgAll_def pendingAck_add_def example_collab_def Let_def
      map_tl)

lemma run_ack_round: "run s (ack_round i s)"
proof -
  have "step s (snd (recvLoop_iteration example_collab
      (Received (TLMessage (big (100 + i) (int i)) MsgsAllInfo)) s))"
    by (rule step_recvLoop)
  moreover have "step (snd (recvLoop_iteration example_collab
      (Received (TLMessage (big (100 + i) (int i)) MsgsAllInfo)) s)) (ack_round i s)"
    unfolding ack_round_def by (rule step_sendLoop)
  ultimately show ?thesis unfolding run_def by simp
qed

lemma run_fold_ack_round: "run s (fold ack_round is s)"
proof (induction "is" arbitrary: s)
  case Nil
  show ?case by (simp add: run_def)
next
  case (Cons i "is")
  have "run s (ack_round i s)" by (rule run_ack_round)
  moreover have "run (ack_round i s) (fold ack_round is (ack_round i s))" by (rule Cons.IH)
  ultimately show ?case unfolding run_def by simp
qed

lemma nine_acks_lastAcks:
  "map promise (u_lastAcks nine_acks) = [2, 3, 4, 5, 6, 7, 8, 9, 10]"
  "u_pendingAck nine_acks = []" "nextObject nine_acks = 11"
proof -
  have e: "u_pendingAck example_sender = []" "nextObject example_sender = 2"
    "u_lastAcks example_sender = []"
    by (simp_all add: ex_defs)
  have l: "length (u_lastAcks x) = length (map promise (u_lastAcks x))" for x by simp
  show "map promise (u_lastAcks nine_acks) = [2, 3, 4, 5, 6, 7, 8, 9, 10]"
    "u_pendingAck nine_acks = []" "nextObject nine_acks = 11"
    unfolding nine_acks_def
    by (simp_all add: ack_round_effect e l del: length_map)
qed

text \<open>
  Claim C4 as it is written fails: after nine rounds the ring holds nine acks; the
  tenth push makes ten entries, not more than ten, and the oldest entry (the ack with
  promise 2) is already evicted.
\<close>

theorem lastAcks_tenth_push_evicts:
  "map promise (u_lastAcks nine_acks) = [2, 3, 4, 5, 6, 7, 8, 9, 10] \<and>
   map promise (u_lastAcks (ack_round 9 nine_acks)) = [3, 4, 5, 6, 7, 8, 9, 10, 11]"
proof -
  have "length (u_lastAcks nine_acks) = length (map promise (u_lastAcks nine_acks))" by simp
  then have "length (u_lastAcks nine_acks) = 9" by (simp only: nine_acks_lastAcks) simp
  then show ?thesis by (simp add: ack_round_effect nine_acks_lastAcks)
qed

text \<open>
  Claim C4, amended. In every run of a sender that starts with at most nine last acks
  (a new sender has none), the ring never holds more than ten entries: it holds at
  most nine between two pushes and at most ten right after a push. A push that makes
  ten entries evicts the oldest one; a push that makes fewer evicts nothing.
\<close>

theorem lastAcks_bounded:
  assumes "length (u_lastAcks s0) \<le> 9" and "run s0 s"
  shows "length (u_lastAcks s) \<le> 9 \<and>
     length (u_lastAcks (lastAcks_push ack s)) \<le> 10 \<and>
     (length (u_lastAcks (lastAcks_push ack s)) < 10 \<longrightarrow>
        u_lastAcks (lastAcks_shift (lastAcks_push ack s)) = u_lastAcks s @ [ack]) \<and>
     (length (u_lastAcks (lastAcks_push ack s)) = 10 \<longrightarrow>
        u_lastAcks (lastAcks_shift (lastAcks_push ack s)) = tl (u_lastAcks s) @ [ack] \<and>
        length (u_lastAcks (lastAcks_shift (lastAcks_push ack s))) = 9)"
proof -
  have "length (u_lastAcks s) \<le> 9" using run_keeps(2) [OF assms(2)] assms(1) by simp
  then show ?thesis
    by (cases "u_lastAcks s") (auto simp: lastAcks_push_def lastAcks_shift_def)
qed

text \<open>
  The theorem at a new sender, where the push evicts nothing, and after nine rounds,
  where it evicts the oldest ack.
\<close>

theorem lastAcks_bounded_witness:
  "u_lastAcks (lastAcks_shift (lastAcks_push (example_request 50 500)
       (MTProtoSender True example_state DEFAULT_OPTIONS))) = [example_request 50 500] \<and>
   length (u_lastAcks nine_acks) = 9 \<and>
   u_lastAcks (lastAcks_shift (lastAcks_push (example_request 50 500) nine_acks))
     = tl (u_lastAcks nine_acks) @ [example_request 50 500]"
proof -
  have n: "length (u_lastAcks nine_acks) = length (map promise (u_lastAcks nine_acks))" by simp
  have l9: "length (u_lastAcks nine_acks) = 9" by (simp only: n nine_acks_lastAcks) simp
  have r0: "run (MTProtoSender True example_state DEFAULT_OPTIONS)
      (MTProtoSender True example_state DEFAULT_OPTIONS)"
    by (simp add: run_def)
  have r9: "run example_sender nine_acks"
    unfolding nine_acks_def by (rule run_fold_ack_round)
  have e: "length (u_lastAcks (MTProtoSender True example_state DEFAULT_OPTIONS)) \<le> 9"
    "length (u_lastAcks example_sender) \<le> 9"
    "u_lastAcks (MTProtoSender True example_state DEFAULT_OPTIONS) = []"
    by (simp_all add: ex_defs)
  have p: "length (u_lastAcks (lastAcks_push a x)) = Suc (length (u_lastAcks x))" for a x
    by (simp add: lastAcks_push_def)
  show ?thesis
    using lastAcks_bounded [OF e(1) r0, of "example_request 50 500"]
      lastAcks_bounded [OF e(2) r9, of "example_request 50 500"]
    by (simp add: p l9 e(3))
qed

end
